theory Spec2Isabelle
  imports Main "HOL-Library.Word"
begin

section \<open>Values of the host language\<close>

text \<open>
  A property read off an options object is \<open>undefined\<close>, \<open>null\<close> or a value. A field of
  an options object is \<open>None\<close> when the key is absent from the object (which matters to
  object spread) and \<open>Some v\<close> when the key is present with value \<open>v\<close>.
\<close>

datatype 'a jsval = Undefined | Null | Value 'a

text \<open>\<open>options?.key\<close>: an absent key reads as \<open>undefined\<close>, and so does every key of an
  absent options object.\<close>

definition get_prop :: "'a jsval option \<Rightarrow> 'a jsval" where
  "get_prop p = (case p of None \<Rightarrow> Undefined | Some v \<Rightarrow> v)"

definition opt_chain :: "'o option \<Rightarrow> ('o \<Rightarrow> 'a jsval option) \<Rightarrow> 'a jsval" where
  "opt_chain options key = (case options of None \<Rightarrow> Undefined | Some ob \<Rightarrow> get_prop (key ob))"

text \<open>\<open>a ?? b\<close>\<close>

definition coalesce :: "'a jsval \<Rightarrow> 'a \<Rightarrow> 'a" where
  "coalesce a b = (case a of Value v \<Rightarrow> v | _ \<Rightarrow> b)"

text \<open>A field typed \<open>T | undefined\<close> holds \<open>None\<close> for \<open>undefined\<close>. The operations of the
  logger apply only \<open>??\<close>, \<open>?.\<close> and truthiness to such a field, which do not tell
  \<open>null\<close> from \<open>undefined\<close>.\<close>

definition stored :: "'a jsval \<Rightarrow> 'a option" where
  "stored a = (case a of Value v \<Rightarrow> Some v | _ \<Rightarrow> None)"

definition as_jsval :: "'a option \<Rightarrow> 'a jsval" where
  "as_jsval a = (case a of Some v \<Rightarrow> Value v | None \<Rightarrow> Undefined)"

section \<open>Constants\<close>

text \<open>\<open>export enum LogLevel { Debug = 1, Info = 2, Warn = 3, Error = 4 }\<close> and
  \<open>export enum FileWriteStreamMode { Append, Truncate, Rename }\<close> (string-valued), the enums
  of \<open>types/constants\<close>.\<close>

datatype LogLevel = Debug | Info | Warn | Error

fun level_value :: "LogLevel \<Rightarrow> nat" where
  "level_value Debug = 1"
| "level_value Info = 2"
| "level_value Warn = 3"
| "level_value Error = 4"

datatype FileWriteStreamMode = Append | Truncate | Rename

text \<open>Truthiness of a number: zero is falsy.\<close>

definition truthy_level :: "LogLevel \<Rightarrow> bool" where
  "truthy_level l = (level_value l \<noteq> 0)"

section \<open>Loggers\<close>

type_synonym ref = nat
type_synonym stream_ref = nat
type_synonym ustring = "nat list"

text \<open>Identity of a formatter object: the one the constructor of logger \<open>r\<close> creates with
  \<open>new Formatter()\<close>, or one supplied by the caller.\<close>

datatype formatter = NewFormatter ref | Supplied nat

record Logger =
  own_writeStream :: "stream_ref option"
  formatter :: formatter
  parent :: "ref option"
  label :: "string option"
  objectInspectOptions :: "nat option"
  logLevel :: "LogLevel option"
  writeLevel :: "LogLevel option"
  listeners :: "LogLevel \<Rightarrow> nat list"

record Options =
  opt_formatter :: "formatter jsval option"
  opt_parent :: "ref jsval option"
  opt_label :: "string jsval option"
  opt_writeStream :: "stream_ref jsval option"
  opt_objectInspectOptions :: "nat jsval option"
  opt_logLevel :: "LogLevel jsval option"
  opt_writeLevel :: "LogLevel jsval option"

type_synonym heap = "ref \<rightharpoonup> Logger"

subsection \<open>The write-stream accessor\<close>

text \<open>\<open>get writeStream() { return this._writeStream ?? this.parent?.writeStream; }\<close>
  The result is \<open>None\<close> when the call does not return (a cyclic parent chain).\<close>

partial_function (option) get_writeStream :: "heap \<Rightarrow> ref \<Rightarrow> stream_ref option option" where
  "get_writeStream h r =
     (case h r of
        None \<Rightarrow> None
      | Some l \<Rightarrow>
          (case own_writeStream l of
             Some s \<Rightarrow> Some (Some s)
           | None \<Rightarrow>
               (case parent l of
                  None \<Rightarrow> Some None
                | Some p \<Rightarrow> get_writeStream h p)))"

text \<open>\<open>set writeStream(value) { this._writeStream = value;
  if (this.parent && !this.parent?.writeStream) this.parent.writeStream = value; }\<close>\<close>

partial_function (option) set_writeStream :: "heap \<Rightarrow> ref \<Rightarrow> stream_ref option \<Rightarrow> heap option" where
  "set_writeStream h r v =
     (case h r of
        None \<Rightarrow> None
      | Some l \<Rightarrow>
          (let h1 = h(r \<mapsto> l\<lparr>own_writeStream := v\<rparr>) in
           case parent l of
             None \<Rightarrow> Some h1
           | Some p \<Rightarrow>
               Option.bind (get_writeStream h1 p)
                 (\<lambda>ps. case ps of
                         Some s \<Rightarrow> Some h1
                       | None \<Rightarrow> set_writeStream h1 p v)))"

subsection \<open>The constructor\<close>

text \<open>\<open>options?.writeLevel ?? options?.writeLevel !== null ? (options?.logLevel ?? LogLevel.Info) : null\<close>
  parses as \<open>(a ?? (a !== null)) ? b : null\<close>: \<open>!==\<close> binds tighter than \<open>??\<close>, which binds
  tighter than the conditional. The condition is the level itself (a number, tested for
  truthiness) when one is given, and the comparison otherwise.\<close>

definition writeLevel_init :: "LogLevel jsval \<Rightarrow> LogLevel jsval \<Rightarrow> LogLevel option" where
  "writeLevel_init wl ll =
     (if (case wl of Value L \<Rightarrow> truthy_level L | _ \<Rightarrow> wl \<noteq> Null)
      then Some (coalesce ll Info) else None)"

text \<open>\<open>new Logger(options)\<close> allocated at the fresh reference \<open>r\<close>. The fields are
  assigned in the order of the source; the assignment to \<open>writeStream\<close> runs the setter.\<close>

definition Logger_new :: "heap \<Rightarrow> ref \<Rightarrow> Options option \<Rightarrow> heap option" where
  "Logger_new h r options =
     (let this = \<lparr> own_writeStream = None,
                   formatter = coalesce (opt_chain options opt_formatter) (NewFormatter r),
                   parent = stored (opt_chain options opt_parent),
                   label = stored (opt_chain options opt_label),
                   objectInspectOptions = None,
                   logLevel = None,
                   writeLevel = None,
                   listeners = (\<lambda>_. []) \<rparr>
      in Option.bind (set_writeStream (h(r \<mapsto> this)) r (stored (opt_chain options opt_writeStream)))
           (\<lambda>h1. case h1 r of
                    None \<Rightarrow> None
                  | Some l \<Rightarrow>
                      Some (h1(r \<mapsto> l\<lparr> objectInspectOptions := stored (opt_chain options opt_objectInspectOptions),
                                       logLevel := Some (coalesce (opt_chain options opt_logLevel) Info),
                                       writeLevel := writeLevel_init (opt_chain options opt_writeLevel)
                                                       (opt_chain options opt_logLevel) \<rparr>))))"

definition no_options :: Options where
  "no_options = \<lparr> opt_formatter = None, opt_parent = None, opt_label = None,
                  opt_writeStream = None, opt_objectInspectOptions = None,
                  opt_logLevel = None, opt_writeLevel = None \<rparr>"

subsection \<open>Write streams, console and listeners\<close>

text \<open>A write stream of the platform: the path it was opened on, its \<open>closed\<close> and
  \<open>destroyed\<close> flags and the chunks handed to \<open>write\<close> so far, in order.\<close>

record WriteStream =
  ws_path :: string
  ws_append :: bool
  closed :: bool
  destroyed :: bool
  chunks :: "ustring list"

datatype message = StringValue ustring | StructuredValue nat

record FormatterFormatOptions =
  fo_level :: LogLevel
  fo_messages :: "message list"
  fo_logger :: ref

text \<open>The payload of an event: \<open>{...options, pretty, simple}\<close>.\<close>

record event_data = FormatterFormatOptions +
  pretty :: ustring
  simple :: ustring

text \<open>One call of a listener: the logger whose emitter dispatched, the listener, the
  event name and the payload.\<close>

record listener_call =
  at_logger :: ref
  listener :: nat
  event_name :: LogLevel
  payload :: event_data

datatype console_sink = console_debug | console_info | console_warn | console_error

text \<open>A node of the file system: a regular file with its bytes, or something else
  (a directory), with the times \<open>stat\<close> reports.\<close>

record fnode =
  isFile :: bool
  content :: "8 word list"
  birthtimeMs :: int
  ctimeMs :: int

text \<open>The world: the loggers and the write streams by reference (\<open>next_stream\<close> is the
  reference the next stream gets), what the console sinks received, the listener calls
  made, and the file system.\<close>

record world =
  loggers :: heap
  streams :: "stream_ref \<Rightarrow> WriteStream"
  next_stream :: stream_ref
  console :: "(console_sink \<times> ustring) list"
  invoked :: "listener_call list"
  files :: "string \<rightharpoonup> fnode"

text \<open>The two methods of a formatter (\<open>BaseFormatter\<close> and \<open>Formatter\<close> are not among the
  sources): they are parameters of the model.\<close>

record formatters =
  formatConsoleLog :: "formatter \<Rightarrow> FormatterFormatOptions \<Rightarrow> ustring"
  formatWriteStreamLog :: "formatter \<Rightarrow> FormatterFormatOptions \<Rightarrow> ustring"

text \<open>\<open>get isWriteStreamClosed() { return !this.writeStream || this.writeStream.closed
  || this.writeStream.destroyed; }\<close>\<close>

definition isWriteStreamClosed :: "world \<Rightarrow> ref \<Rightarrow> bool option" where
  "isWriteStreamClosed w this =
     Option.bind (get_writeStream (loggers w) this)
       (\<lambda>ws. case ws of
               None \<Rightarrow> Some True
             | Some s \<Rightarrow> Some (closed (streams w s) \<or> destroyed (streams w s)))"

text \<open>\<open>stream.write(data, 'utf-8')\<close> of the platform: the chunk joins the stream's queue;
  a stream that is closed or destroyed takes no more data.\<close>

definition stream_write :: "world \<Rightarrow> stream_ref \<Rightarrow> ustring \<Rightarrow> world" where
  "stream_write w s data =
     (if closed (streams w s) \<or> destroyed (streams w s) then w
      else w\<lparr>streams := (streams w)(s := (streams w s)\<lparr>chunks := chunks (streams w s) @ [data]\<rparr>)\<rparr>)"

text \<open>\<open>stream.close(callback)\<close> of the platform: the stream ends closed and the callback
  is called (at once when the stream was closed already).\<close>

definition stream_close :: "world \<Rightarrow> stream_ref \<Rightarrow> world" where
  "stream_close w s = w\<lparr>streams := (streams w)(s := (streams w s)\<lparr>closed := True\<rparr>)\<rparr>"

subsection \<open>Events\<close>

text \<open>\<open>super.emit(eventName, ...args)\<close>: the listeners registered for the event are called
  in the order of registration; the result tells whether there was one.\<close>

definition dispatch :: "world \<Rightarrow> ref \<Rightarrow> Logger \<Rightarrow> LogLevel \<Rightarrow> event_data \<Rightarrow> world" where
  "dispatch w this l eventName args =
     w\<lparr>invoked := invoked w @
          map (\<lambda>f. \<lparr>at_logger = this, listener = f, event_name = eventName, payload = args\<rparr>)
            (listeners l eventName)\<rparr>"

text \<open>\<open>emit(eventName, ...args) { const result = super.emit(eventName, ...args);
  if (this.parent) this.parent.emit(eventName, ...args); return result; }\<close>\<close>

partial_function (option) emit :: "world \<Rightarrow> ref \<Rightarrow> LogLevel \<Rightarrow> event_data \<Rightarrow> (bool \<times> world) option" where
  "emit w this eventName args =
     (case loggers w this of
        None \<Rightarrow> None
      | Some l \<Rightarrow>
          (let result = (listeners l eventName \<noteq> []);
               w1 = dispatch w this l eventName args
           in case parent l of
                None \<Rightarrow> Some (result, w1)
              | Some p \<Rightarrow>
                  Option.bind (emit w1 p eventName args) (\<lambda>up. Some (result, snd up))))"

subsection \<open>Printing\<close>

definition console_of :: "LogLevel \<Rightarrow> console_sink" where
  "console_of level =
     (case level of Debug \<Rightarrow> console_debug | Info \<Rightarrow> console_info
      | Warn \<Rightarrow> console_warn | Error \<Rightarrow> console_error)"

text \<open>\<open>threshold && level >= threshold\<close>\<close>

definition passes :: "LogLevel option \<Rightarrow> LogLevel \<Rightarrow> bool" where
  "passes threshold level =
     (case threshold of
        None \<Rightarrow> False
      | Some t \<Rightarrow> truthy_level t \<and> level_value t \<le> level_value level)"

definition print :: "formatters \<Rightarrow> world \<Rightarrow> ref \<Rightarrow> LogLevel \<Rightarrow> message list \<Rightarrow> world option" where
  "print F w this level data =
     (case loggers w this of
        None \<Rightarrow> None
      | Some l \<Rightarrow>
          (let options = \<lparr>fo_level = level, fo_messages = data, fo_logger = this\<rparr>;
               pretty = formatConsoleLog F (formatter l) options;
               simple = formatWriteStreamLog F (formatter l) options
           in Option.bind
                (emit w this level
                   \<lparr>fo_level = level, fo_messages = data, fo_logger = this,
                    pretty = pretty, simple = simple\<rparr>)
                (\<lambda>emitted.
                   let w1 = snd emitted;
                       w2 = (if passes (logLevel l) level
                             then w1\<lparr>console := console w1 @ [(console_of level, pretty)]\<rparr>
                             else w1)
                   in Option.bind (isWriteStreamClosed w2 this)
                        (\<lambda>isClosed.
                           if \<not> isClosed \<and> passes (writeLevel l) level
                           then Option.bind (get_writeStream (loggers w2) this)
                                  (\<lambda>ws. case ws of
                                          None \<Rightarrow> Some w2
                                        | Some s \<Rightarrow> Some (stream_write w2 s (simple @ [10])))
                           else Some w2))))"

definition error :: "formatters \<Rightarrow> world \<Rightarrow> ref \<Rightarrow> message list \<Rightarrow> world option" where
  "error F w this data = print F w this Error data"

definition warning :: "formatters \<Rightarrow> world \<Rightarrow> ref \<Rightarrow> message list \<Rightarrow> world option" where
  "warning F w this data = print F w this Warn data"

definition info :: "formatters \<Rightarrow> world \<Rightarrow> ref \<Rightarrow> message list \<Rightarrow> world option" where
  "info F w this data = print F w this Info data"

definition debug :: "formatters \<Rightarrow> world \<Rightarrow> ref \<Rightarrow> message list \<Rightarrow> world option" where
  "debug F w this data = print F w this Debug data"

definition log :: "formatters \<Rightarrow> world \<Rightarrow> ref \<Rightarrow> message list \<Rightarrow> world option" where
  "log F w this data = info F w this data"

definition warn :: "formatters \<Rightarrow> world \<Rightarrow> ref \<Rightarrow> message list \<Rightarrow> world option" where
  "warn F w this data = warning F w this data"

definition err :: "formatters \<Rightarrow> world \<Rightarrow> ref \<Rightarrow> message list \<Rightarrow> world option" where
  "err F w this data = error F w this data"

subsection \<open>Closing, cloning\<close>

text \<open>\<open>await new Promise((resolve) => { if (!this.isWriteStreamClosed) return resolve(this);
  this.writeStream?.close(resolve); }); return this;\<close>
  The result is the logger the promise resolves with and the world then; it is \<open>None\<close>
  when \<open>resolve\<close> is never called, so that the promise stays pending.\<close>

definition closeFileWriteStream :: "world \<Rightarrow> ref \<Rightarrow> (ref \<times> world) option" where
  "closeFileWriteStream w this =
     Option.bind (isWriteStreamClosed w this)
       (\<lambda>isClosed.
          if \<not> isClosed then Some (this, w)
          else Option.bind (get_writeStream (loggers w) this)
                 (\<lambda>ws. case ws of
                         None \<Rightarrow> None
                       | Some s \<Rightarrow> Some (this, stream_close w s)))"

definition nullable :: "'a option \<Rightarrow> 'a jsval" where
  "nullable a = (case a of Some v \<Rightarrow> Value v | None \<Rightarrow> Null)"

definition toJSON :: "heap \<Rightarrow> ref \<Rightarrow> Options option" where
  "toJSON h this =
     (case h this of
        None \<Rightarrow> None
      | Some l \<Rightarrow>
          Option.bind (get_writeStream h this)
            (\<lambda>ws. Some \<lparr> opt_formatter = Some (Value (formatter l)),
                          opt_parent = Some (as_jsval (parent l)),
                          opt_label = Some (as_jsval (label l)),
                          opt_writeStream = Some (as_jsval ws),
                          opt_objectInspectOptions = Some (as_jsval (objectInspectOptions l)),
                          opt_logLevel = Some (nullable (logLevel l)),
                          opt_writeLevel = Some (nullable (writeLevel l)) \<rparr>))"

text \<open>A key of \<open>{...a, ...b}\<close>: the later object wins where it has the key.\<close>

definition spread_key :: "'a option \<Rightarrow> 'a option \<Rightarrow> 'a option" where
  "spread_key a b = (case b of None \<Rightarrow> a | Some v \<Rightarrow> Some v)"

definition spread :: "Options \<Rightarrow> Options option \<Rightarrow> Options" where
  "spread a options =
     (case options of
        None \<Rightarrow> a
      | Some b \<Rightarrow>
          \<lparr> opt_formatter = spread_key (opt_formatter a) (opt_formatter b),
            opt_parent = spread_key (opt_parent a) (opt_parent b),
            opt_label = spread_key (opt_label a) (opt_label b),
            opt_writeStream = spread_key (opt_writeStream a) (opt_writeStream b),
            opt_objectInspectOptions = spread_key (opt_objectInspectOptions a) (opt_objectInspectOptions b),
            opt_logLevel = spread_key (opt_logLevel a) (opt_logLevel b),
            opt_writeLevel = spread_key (opt_writeLevel a) (opt_writeLevel b) \<rparr>)"

text \<open>\<open>clone(options, inheritParent = true) { return new Logger({...this.toJSON(),
  parent: inheritParent ? this.parent : this, ...options}); }\<close>, the new logger
  allocated at the fresh reference \<open>r\<close>.\<close>

definition clone :: "heap \<Rightarrow> ref \<Rightarrow> ref \<Rightarrow> Options option \<Rightarrow> bool \<Rightarrow> heap option" where
  "clone h r this options inheritParent =
     (case h this of
        None \<Rightarrow> None
      | Some l \<Rightarrow>
          Option.bind (toJSON h this)
            (\<lambda>json. Logger_new h r
               (Some (spread
                  (json\<lparr>opt_parent := Some (if inheritParent then as_jsval (parent l) else Value this)\<rparr>)
                  options))))"

subsection \<open>Parent chains\<close>

text \<open>\<open>chain h r as\<close>: the ancestors of \<open>r\<close> are \<open>as\<close>, from its parent up to the root.\<close>

fun chain :: "heap \<Rightarrow> ref \<Rightarrow> ref list \<Rightarrow> bool" where
  "chain h r [] = (case h r of None \<Rightarrow> False | Some l \<Rightarrow> parent l = None)"
| "chain h r (p # as) = (case h r of None \<Rightarrow> False | Some l \<Rightarrow> parent l = Some p \<and> chain h p as)"

text \<open>The first stream held by a logger of the list.\<close>

fun resolve :: "heap \<Rightarrow> ref list \<Rightarrow> stream_ref option" where
  "resolve h [] = None"
| "resolve h (q # qs) =
     (case h q of
        None \<Rightarrow> None
      | Some l \<Rightarrow> (case own_writeStream l of Some s \<Rightarrow> Some s | None \<Rightarrow> resolve h qs))"

text \<open>The heap after \<open>_writeStream = v\<close> in every logger of the list.\<close>

definition assign :: "heap \<Rightarrow> stream_ref option \<Rightarrow> ref list \<Rightarrow> heap" where
  "assign h v qs = (\<lambda>q. if q \<in> set qs then map_option (\<lambda>l. l\<lparr>own_writeStream := v\<rparr>) (h q) else h q)"

subsection \<open>Example loggers\<close>

definition plain_logger :: "ref option \<Rightarrow> stream_ref option \<Rightarrow> Logger" where
  "plain_logger p s =
     \<lparr> own_writeStream = s, formatter = Supplied 0, parent = p, label = None,
       objectInspectOptions = None, logLevel = Some Info, writeLevel = Some Info,
       listeners = (\<lambda>_. []) \<rparr>"

text \<open>A root logger 0 and its child 1, neither with a stream.\<close>

definition family :: heap where
  "family = [0 \<mapsto> plain_logger None None, 1 \<mapsto> plain_logger (Some 0) None]"

text \<open>A root logger 0 that holds stream 5, its child 1 and grandchild 2 without one.\<close>

definition family_with_stream :: heap where
  "family_with_stream =
     [0 \<mapsto> plain_logger None (Some 5), 1 \<mapsto> plain_logger (Some 0) None,
      2 \<mapsto> plain_logger (Some 1) None]"

text \<open>The listener calls the emitter of logger \<open>q\<close> makes for an event.\<close>

definition calls_at :: "heap \<Rightarrow> ref \<Rightarrow> LogLevel \<Rightarrow> event_data \<Rightarrow> listener_call list" where
  "calls_at h q eventName args =
     (case h q of
        None \<Rightarrow> []
      | Some l \<Rightarrow>
          map (\<lambda>f. \<lparr>at_logger = q, listener = f, event_name = eventName, payload = args\<rparr>)
            (listeners l eventName))"

definition plain_formatters :: formatters where
  "plain_formatters = \<lparr> formatConsoleLog = (\<lambda>f opts. [112]), formatWriteStreamLog = (\<lambda>f opts. [115]) \<rparr>"

definition open_stream :: WriteStream where
  "open_stream = \<lparr> ws_path = ''/logs/latest.log'', ws_append = False, closed = False,
                   destroyed = False, chunks = [] \<rparr>"

definition listening_world :: world where
  "listening_world =
     \<lparr> loggers = [0 \<mapsto> (plain_logger None (Some 5))\<lparr>listeners := (\<lambda>_. [10])\<rparr>,
                  1 \<mapsto> (plain_logger (Some 0) None)\<lparr>listeners := (\<lambda>_. [11])\<rparr>,
                  2 \<mapsto> (plain_logger (Some 1) None)\<lparr>listeners := (\<lambda>_. [12, 13])\<rparr>],
       streams = (\<lambda>_. open_stream), next_stream = 6, console = [], invoked = [],
       files = Map.empty \<rparr>"

definition streamless_world :: world where
  "streamless_world =
     \<lparr> loggers = family, streams = (\<lambda>_. open_stream), next_stream = 0, console = [],
       invoked = [], files = Map.empty \<rparr>"

text \<open>A root 0, its child 1 with write threshold \<open>Error\<close>, and another root 2.\<close>

definition clone_example :: heap where
  "clone_example =
     [0 \<mapsto> plain_logger None None,
      1 \<mapsto> (plain_logger (Some 0) None)\<lparr>writeLevel := Some Error\<rparr>,
      2 \<mapsto> plain_logger None None]"

section \<open>Text, dates and paths of the platform\<close>

text \<open>A string of the host language is a list of code points (\<open>ustring\<close>); the string
  operations the sources use (\<open>split('\n')\<close>, \<open>join\<close>, \<open>trim\<close>, \<open>startsWith('[')\<close>,
  \<open>endsWith(']')\<close>, \<open>substring(1, length - 1)\<close> after these two tests, emptiness,
  concatenation) act on code points as they do on UTF-16 code units. Paths and the
  strings built from numbers are ASCII and are kept as \<open>string\<close>.\<close>

type_synonym byte = "8 word"

definition ustr :: "string \<Rightarrow> ustring" where
  "ustr s = map of_char s"

subsection \<open>UTF-8\<close>

text \<open>\<open>buffer.toString('utf-8')\<close> and reading a file as \<open>'utf-8'\<close>: the decoder with
  replacement. The state is the number of continuation bytes still needed, the code point
  so far and the bounds of the next byte; a byte that cannot continue a sequence makes the
  sequence so far one U+FFFD and is then decoded again as the first byte of a sequence.\<close>

fun utf8_decode_from :: "nat \<Rightarrow> nat \<Rightarrow> nat \<Rightarrow> nat \<Rightarrow> byte list \<Rightarrow> ustring" where
  "utf8_decode_from needed cp lo hi [] = (if needed = 0 then [] else [0xFFFD])"
| "utf8_decode_from needed cp lo hi (b # bs) =
     (if needed = 0 then
        (if unat b \<le> 0x7F then unat b # utf8_decode_from 0 0 0x80 0xBF bs
         else if 0xC2 \<le> unat b \<and> unat b \<le> 0xDF
           then utf8_decode_from 1 (unat b mod 32) 0x80 0xBF bs
         else if 0xE0 \<le> unat b \<and> unat b \<le> 0xEF
           then utf8_decode_from 2 (unat b mod 16)
                  (if unat b = 0xE0 then 0xA0 else 0x80) (if unat b = 0xED then 0x9F else 0xBF) bs
         else if 0xF0 \<le> unat b \<and> unat b \<le> 0xF4
           then utf8_decode_from 3 (unat b mod 8)
                  (if unat b = 0xF0 then 0x90 else 0x80) (if unat b = 0xF4 then 0x8F else 0xBF) bs
         else 0xFFFD # utf8_decode_from 0 0 0x80 0xBF bs)
      else if unat b < lo \<or> hi < unat b
        then 0xFFFD # utf8_decode_from 0 0 0x80 0xBF (b # bs)
      else if needed = 1
        then (cp * 64 + unat b mod 64) # utf8_decode_from 0 0 0x80 0xBF bs
      else utf8_decode_from (needed - 1) (cp * 64 + unat b mod 64) 0x80 0xBF bs)"

definition utf8_decode :: "byte list \<Rightarrow> ustring" where
  "utf8_decode bs = utf8_decode_from 0 0 0x80 0xBF bs"

text \<open>Writing a string as \<open>'utf-8'\<close>; a lone surrogate is written as U+FFFD.\<close>

definition utf8_encode_cp :: "nat \<Rightarrow> byte list" where
  "utf8_encode_cp c =
     (if c < 0x80 then [of_nat c]
      else if c < 0x800 then [of_nat (0xC0 + c div 64), of_nat (0x80 + c mod 64)]
      else if 0xD800 \<le> c \<and> c \<le> 0xDFFF then [0xEF, 0xBF, 0xBD]
      else if c < 0x10000
        then [of_nat (0xE0 + c div 4096), of_nat (0x80 + (c div 64) mod 64), of_nat (0x80 + c mod 64)]
      else [of_nat (0xF0 + c div 262144), of_nat (0x80 + (c div 4096) mod 64),
            of_nat (0x80 + (c div 64) mod 64), of_nat (0x80 + c mod 64)])"

definition utf8_encode :: "ustring \<Rightarrow> byte list" where
  "utf8_encode s = concat (map utf8_encode_cp s)"

subsection \<open>Strings\<close>

text \<open>\<open>s.split(sep)\<close> for a one-character separator, and \<open>parts.join(sep)\<close>.\<close>

fun split_on :: "'a \<Rightarrow> 'a list \<Rightarrow> 'a list list" where
  "split_on sep [] = [[]]"
| "split_on sep (x # xs) =
     (if x = sep then [] # split_on sep xs
      else (case split_on sep xs of
              [] \<Rightarrow> [[x]]
            | y # ys \<Rightarrow> (x # y) # ys))"

fun join_with :: "'a \<Rightarrow> 'a list list \<Rightarrow> 'a list" where
  "join_with sep [] = []"
| "join_with sep [x] = x"
| "join_with sep (x # y # ys) = x @ sep # join_with sep (y # ys)"

text \<open>White space and line terminators, as \<open>trim\<close> removes them.\<close>

definition js_whitespace :: "nat \<Rightarrow> bool" where
  "js_whitespace c =
     (c \<in> set [0x9, 0xA, 0xB, 0xC, 0xD, 0x20, 0xA0, 0x1680, 0x2028, 0x2029, 0x202F, 0x205F,
                 0x3000, 0xFEFF] \<or> (0x2000 \<le> c \<and> c \<le> 0x200A))"

definition trim :: "ustring \<Rightarrow> ustring" where
  "trim s = rev (dropWhile js_whitespace (rev (dropWhile js_whitespace s)))"

text \<open>A non-negative integer as a decimal string.\<close>

fun dec :: "nat \<Rightarrow> string" where
  "dec n = (if n < 10 then [''0123456789'' ! n] else dec (n div 10) @ [''0123456789'' ! (n mod 10)])"

declare dec.simps [simp del]

definition pad :: "nat \<Rightarrow> nat \<Rightarrow> string" where
  "pad width n = replicate (width - length (dec n)) CHR ''0'' @ dec n"

subsection \<open>Dates\<close>

text \<open>A date holds a time value, milliseconds since the epoch in UTC, or is invalid.\<close>

datatype Date = TimeValue int | InvalidDate

datatype js_error =
    WriteStreamAlreadyCreated
  | WriteStreamPathNotAFile
  | RangeError
  | TypeError
  | FsError string
  | CodecError
  | CallbackError

text \<open>What the logger is given by its surroundings: the clock (\<open>new Date()\<close>), the offset
  of local time from UTC in minutes at a time value, the working directory, the gzip
  codec (\<open>None\<close> when it reports an error), and what \<open>new Date(string)\<close> makes of a string
  that is not in the format of \<open>toISOString\<close> (implementation-defined).\<close>

record env =
  now :: int
  local_offset :: "int \<Rightarrow> int"
  cwd :: string
  gzip :: "byte list \<Rightarrow> byte list option"
  date_fallback :: "ustring \<Rightarrow> Date"

text \<open>The proleptic Gregorian calendar: day number since the epoch of a date, and back.\<close>

definition days_from_civil :: "int \<Rightarrow> int \<Rightarrow> int \<Rightarrow> int" where
  "days_from_civil y m d =
     (let y' = (if m \<le> 2 then y - 1 else y);
          era = y' div 400;
          yoe = y' - era * 400;
          doy = (153 * (if m > 2 then m - 3 else m + 9) + 2) div 5 + d - 1;
          doe = yoe * 365 + yoe div 4 - yoe div 100 + doy
      in era * 146097 + doe - 719468)"

definition civil_from_days :: "int \<Rightarrow> int \<times> int \<times> int" where
  "civil_from_days z0 =
     (let z = z0 + 719468;
          era = z div 146097;
          doe = z - era * 146097;
          yoe = (doe - doe div 1460 + doe div 36524 - doe div 146096) div 365;
          doy = doe - (365 * yoe + yoe div 4 - yoe div 100);
          mp = (5 * doy + 2) div 153;
          d = doy - (153 * mp + 2) div 5 + 1;
          m = (if mp < 10 then mp + 3 else mp - 9);
          y = yoe + era * 400
      in (if m \<le> 2 then y + 1 else y, m, d))"

definition days_in_month :: "int \<Rightarrow> int \<Rightarrow> int" where
  "days_in_month y m =
     (if m = 2 then (if y mod 4 = 0 \<and> (y mod 100 \<noteq> 0 \<or> y mod 400 = 0) then 29 else 28)
      else if m \<in> set [4, 6, 9, 11] then 30 else 31)"

text \<open>\<open>date.toISOString()\<close>: \<open>YYYY-MM-DDTHH:mm:ss.sssZ\<close> in UTC, the year with a sign and
  six digits outside 0..9999; a \<open>RangeError\<close> for an invalid date.\<close>

definition toISOString :: "Date \<Rightarrow> js_error + string" where
  "toISOString date =
     (case date of
        InvalidDate \<Rightarrow> Inl RangeError
      | TimeValue t \<Rightarrow>
          (case civil_from_days (t div 86400000) of
             (y, m, d) \<Rightarrow>
               Inr ((if 0 \<le> y \<and> y \<le> 9999 then pad 4 (nat y)
                     else (if y < 0 then ''-'' else ''+'') @ pad 6 (nat \<bar>y\<bar>))
                    @ ''-'' @ pad 2 (nat m) @ ''-'' @ pad 2 (nat d)
                    @ ''T'' @ pad 2 (nat ((t div 3600000) mod 24))
                    @ '':'' @ pad 2 (nat ((t div 60000) mod 60))
                    @ '':'' @ pad 2 (nat ((t div 1000) mod 60))
                    @ ''.'' @ pad 3 (nat (t mod 1000)) @ ''Z'')))"

text \<open>\<open>getHours\<close>, \<open>getMinutes\<close>, \<open>getSeconds\<close>, \<open>getMilliseconds\<close>: fields of local time.\<close>

definition local_time :: "env \<Rightarrow> int \<Rightarrow> int" where
  "local_time e t = t + local_offset e t * 60000"

definition getHours :: "env \<Rightarrow> int \<Rightarrow> nat" where
  "getHours e t = nat ((local_time e t div 3600000) mod 24)"

definition getMinutes :: "env \<Rightarrow> int \<Rightarrow> nat" where
  "getMinutes e t = nat ((local_time e t div 60000) mod 60)"

definition getSeconds :: "env \<Rightarrow> int \<Rightarrow> nat" where
  "getSeconds e t = nat ((local_time e t div 1000) mod 60)"

definition getMilliseconds :: "env \<Rightarrow> int \<Rightarrow> nat" where
  "getMilliseconds e t = nat (local_time e t mod 1000)"

text \<open>\<open>new Date(string)\<close>. A string in the format of \<open>toISOString\<close> with a four-digit year
  and a valid date and time is that time in UTC; every other string is left to the
  implementation.\<close>

fun number_of :: "nat list \<Rightarrow> nat option" where
  "number_of [] = Some 0"
| "number_of (c # cs) =
     (if 48 \<le> c \<and> c \<le> 57
      then map_option (\<lambda>n. (c - 48) * 10 ^ length cs + n) (number_of cs)
      else None)"

definition field :: "ustring \<Rightarrow> nat \<Rightarrow> nat \<Rightarrow> int option" where
  "field s start len = map_option int (number_of (take len (drop start s)))"

definition parse_iso :: "ustring \<Rightarrow> int option" where
  "parse_iso s =
     (if length s = 24 \<and> s ! 4 = 45 \<and> s ! 7 = 45 \<and> s ! 10 = 84 \<and> s ! 13 = 58
         \<and> s ! 16 = 58 \<and> s ! 19 = 46 \<and> s ! 23 = 90
      then Option.bind (field s 0 4) (\<lambda>y. Option.bind (field s 5 2) (\<lambda>m.
           Option.bind (field s 8 2) (\<lambda>d. Option.bind (field s 11 2) (\<lambda>h.
           Option.bind (field s 14 2) (\<lambda>mi. Option.bind (field s 17 2) (\<lambda>sec.
           Option.bind (field s 20 3) (\<lambda>ms.
             if 1 \<le> m \<and> m \<le> 12 \<and> 1 \<le> d \<and> d \<le> days_in_month y m
                \<and> h \<le> 23 \<and> mi \<le> 59 \<and> sec \<le> 59
             then Some ((((days_from_civil y m d * 24 + h) * 60 + mi) * 60 + sec) * 1000 + ms)
             else None)))))))
      else None)"

definition Date_of_string :: "env \<Rightarrow> ustring \<Rightarrow> Date" where
  "Date_of_string e s = (case parse_iso s of Some t \<Rightarrow> TimeValue t | None \<Rightarrow> date_fallback e s)"

subsection \<open>Paths\<close>

text \<open>POSIX paths. \<open>path.resolve(p)\<close> makes \<open>p\<close> absolute against the working directory
  and normalises it; \<open>path.parse\<close> of an absolute normalised path gives its directory,
  base name and extension; \<open>path.join(dir, name)\<close> is used with an absolute \<open>dir\<close>.\<close>

fun normalize_segments :: "string list \<Rightarrow> string list \<Rightarrow> string list" where
  "normalize_segments [] acc = rev acc"
| "normalize_segments (s # ss) acc =
     (if s = [] \<or> s = ''.'' then normalize_segments ss acc
      else if s = ''..'' then normalize_segments ss (tl acc)
      else normalize_segments ss (s # acc))"

definition absolute :: "string \<Rightarrow> string" where
  "absolute p = CHR ''/'' # join_with CHR ''/'' (normalize_segments (split_on CHR ''/'' p) [])"

definition path_resolve :: "env \<Rightarrow> string \<Rightarrow> string" where
  "path_resolve e p =
     absolute (if p \<noteq> [] \<and> hd p = CHR ''/'' then p else cwd e @ ''/'' @ p)"

definition path_join :: "string \<Rightarrow> string \<Rightarrow> string" where
  "path_join d name = absolute (d @ ''/'' @ name)"

record ParsedPath =
  dir :: string
  base :: string
  ext :: string

definition extname :: "string \<Rightarrow> string" where
  "extname b =
     (let after = takeWhile (\<lambda>c. c \<noteq> CHR ''.'') (rev b)
      in if length after = length b \<or> length after + 1 = length b \<or> b = ''..'' then []
         else drop (length b - length after - 1) b)"

definition path_parse :: "string \<Rightarrow> ParsedPath" where
  "path_parse file =
     (let b = rev (takeWhile (\<lambda>c. c \<noteq> CHR ''/'') (rev file));
          d = take (length file - length b - 1) file
      in \<lparr> dir = (if d = [] then ''/'' else d), base = b, ext = extname b \<rparr>)"

section \<open>Files\<close>

text \<open>What a call that can throw leaves behind: the error or the value, and the world.\<close>

datatype 'a result = Throws js_error world | Returns 'a world

subsection \<open>The file system of the platform, as far as the logger uses it\<close>

definition fs_stat :: "world \<Rightarrow> string \<Rightarrow> fnode result" where
  "fs_stat w file =
     (case files w file of None \<Rightarrow> Throws (FsError ''ENOENT'') w | Some n \<Rightarrow> Returns n w)"

text \<open>\<open>stat(file).catch(() => null)\<close>\<close>

definition stat_or_null :: "world \<Rightarrow> string \<Rightarrow> fnode option" where
  "stat_or_null w file = (case fs_stat w file of Throws e w' \<Rightarrow> None | Returns n w' \<Rightarrow> Some n)"

definition fs_readFile :: "world \<Rightarrow> string \<Rightarrow> ustring result" where
  "fs_readFile w file =
     (case files w file of
        None \<Rightarrow> Throws (FsError ''ENOENT'') w
      | Some n \<Rightarrow>
          if isFile n then Returns (utf8_decode (content n)) w
          else Throws (FsError ''EISDIR'') w)"

definition fs_writeFile :: "env \<Rightarrow> world \<Rightarrow> string \<Rightarrow> ustring \<Rightarrow> unit result" where
  "fs_writeFile e w file data =
     (case files w file of
        None \<Rightarrow>
          Returns () (w\<lparr>files := (files w)(file \<mapsto>
            \<lparr>isFile = True, content = utf8_encode data, birthtimeMs = now e, ctimeMs = now e\<rparr>)\<rparr>)
      | Some n \<Rightarrow>
          if isFile n
          then Returns () (w\<lparr>files := (files w)(file \<mapsto> n\<lparr>content := utf8_encode data, ctimeMs := now e\<rparr>)\<rparr>)
          else Throws (FsError ''EISDIR'') w)"

definition fs_rename :: "world \<Rightarrow> string \<Rightarrow> string \<Rightarrow> unit result" where
  "fs_rename w old new =
     (case files w old of
        None \<Rightarrow> Throws (FsError ''ENOENT'') w
      | Some n \<Rightarrow> Returns () (w\<lparr>files := ((files w)(old := None))(new \<mapsto> n)\<rparr>))"

text \<open>\<open>mkdir(dir, { recursive: true })\<close>\<close>

definition fs_mkdir :: "env \<Rightarrow> world \<Rightarrow> string \<Rightarrow> unit result" where
  "fs_mkdir e w d =
     (case files w d of
        None \<Rightarrow>
          Returns () (w\<lparr>files := (files w)(d \<mapsto>
            \<lparr>isFile = False, content = [], birthtimeMs = now e, ctimeMs = now e\<rparr>)\<rparr>)
      | Some n \<Rightarrow> if isFile n then Throws (FsError ''EEXIST'') w else Returns () w)"

text \<open>\<open>createWriteStream(file, { flags, encoding })\<close> and the wait for its \<open>open\<close> event:
  flag \<open>w\<close> creates the file or empties it, flag \<open>a\<close> creates it or keeps it. On a path
  that is not a regular file the stream never reports \<open>open\<close>: the result is \<open>None\<close>.\<close>

definition createWriteStream :: "env \<Rightarrow> world \<Rightarrow> string \<Rightarrow> bool \<Rightarrow> (stream_ref \<times> world) option" where
  "createWriteStream e w file appending =
     (let s = next_stream w;
          opened = \<lparr>ws_path = file, ws_append = appending, closed = False, destroyed = False, chunks = []\<rparr>;
          w1 = w\<lparr>streams := (streams w)(s := opened), next_stream := Suc s\<rparr>
      in case files w file of
           None \<Rightarrow>
             Some (s, w1\<lparr>files := (files w)(file \<mapsto>
               \<lparr>isFile = True, content = [], birthtimeMs = now e, ctimeMs = now e\<rparr>)\<rparr>)
         | Some n \<Rightarrow>
             if isFile n
             then Some (s, if appending then w1 else w1\<lparr>files := (files w)(file \<mapsto> n\<lparr>content := []\<rparr>)\<rparr>)
             else None)"

subsection \<open>Utils\<close>

text \<open>\<open>getFileCreationDate(file, options)\<close>: the birth time of the file (its change time
  when the file system reports no birth time), unless the first line, trimmed, is
  bracketed: then the date the text between the brackets parses to.\<close>

definition getFileCreationDate ::
    "env \<Rightarrow> world \<Rightarrow> string \<Rightarrow> fnode option \<Rightarrow> ustring list option \<Rightarrow> Date result" where
  "getFileCreationDate e w file opt_statData opt_lines =
     (case (case opt_statData of Some st \<Rightarrow> Returns st w | None \<Rightarrow> fs_stat w file) of
        Throws ex w' \<Rightarrow> Throws ex w'
      | Returns statData w' \<Rightarrow>
          (case (case opt_lines of
                   Some ls \<Rightarrow> Returns ls w
                 | None \<Rightarrow>
                     (case fs_readFile w file of
                        Throws ex w' \<Rightarrow> Throws ex w'
                      | Returns txt w' \<Rightarrow> Returns (split_on 10 txt) w')) of
             Throws ex w' \<Rightarrow> Throws ex w'
           | Returns lines w' \<Rightarrow>
               (case lines of
                  [] \<Rightarrow> Throws TypeError w
                | first # rest \<Rightarrow>
                    (let createdAt = TimeValue (if birthtimeMs statData \<noteq> 0
                                                then birthtimeMs statData else ctimeMs statData);
                         header = trim first
                     in if header \<noteq> [] \<and> hd header = 91 \<and> last header = 93
                        then Returns (Date_of_string e (take (length header - 2) (drop 1 header))) w
                        else Returns createdAt w))))"

text \<open>\<open>formatDateFileName(date)\<close>: the first ten characters of \<open>toISOString()\<close>, then the
  hours, minutes, seconds and milliseconds of local time.\<close>

definition formatDateFileName :: "env \<Rightarrow> Date \<Rightarrow> js_error + string" where
  "formatDateFileName e date =
     (case toISOString date of
        Inl ex \<Rightarrow> Inl ex
      | Inr isoString \<Rightarrow>
          (case date of
             InvalidDate \<Rightarrow> Inr (take 10 isoString @ ''-NaN-NaN-NaN-NaN'')
           | TimeValue t \<Rightarrow>
               Inr (take 10 isoString @ ''-'' @ dec (getHours e t) @ ''-'' @ dec (getMinutes e t)
                    @ ''-'' @ dec (getSeconds e t) @ ''-'' @ dec (getMilliseconds e t))))"

definition logDateHeader :: "Date \<Rightarrow> js_error + string" where
  "logDateHeader date =
     (case toISOString date of Inl ex \<Rightarrow> Inl ex | Inr isoString \<Rightarrow> Inr (''['' @ isoString @ '']''))"

text \<open>\<open>gzipCompressLog(file, statData)\<close>\<close>

definition gzipCompressLog :: "env \<Rightarrow> world \<Rightarrow> string \<Rightarrow> fnode \<Rightarrow> unit result" where
  "gzipCompressLog e w file statData =
     (let filePathInfo = path_parse file
      in case fs_readFile w file of
           Throws ex w' \<Rightarrow> Throws ex w'
         | Returns txt w' \<Rightarrow>
             (let lines = split_on 10 txt
              in case getFileCreationDate e w file (Some statData) (Some lines) of
                   Throws ex w' \<Rightarrow> Throws ex w'
                 | Returns createdAt w' \<Rightarrow>
                     (case formatDateFileName e createdAt of
                        Inl ex \<Rightarrow> Throws ex w
                      | Inr stamp \<Rightarrow>
                          (let newFile = path_join (dir filePathInfo) (stamp @ ext filePathInfo @ ''.gz'')
                           in case gzip e (utf8_encode (join_with 10 lines)) of
                                None \<Rightarrow> Throws CodecError w
                              | Some data \<Rightarrow>
                                  (case fs_writeFile e w file (utf8_decode data) of
                                     Throws ex w' \<Rightarrow> Throws ex w'
                                   | Returns u w1 \<Rightarrow> fs_rename w1 file newFile)))))"

subsection \<open>Creating the file write stream\<close>

datatype initial_data = Literal ustring | Computed "string \<Rightarrow> ustring"

record WriteStreamOptions =
  path :: string
  mode :: FileWriteStreamMode
  renameFile :: "(string \<Rightarrow> fnode \<Rightarrow> world \<Rightarrow> unit result) option"
  initialData :: "initial_data option"

text \<open>The \<open>switch (options.mode)\<close> of the static factory.\<close>

definition prepare_file ::
    "env \<Rightarrow> world \<Rightarrow> WriteStreamOptions \<Rightarrow> string \<Rightarrow> fnode option \<Rightarrow> ustring \<Rightarrow> unit result" where
  "prepare_file e w options file fileStat initialData' =
     (case mode options of
        Append \<Rightarrow> Returns () w
      | Truncate \<Rightarrow>
          (case fileStat of
             None \<Rightarrow> Returns () w
           | Some st \<Rightarrow> fs_writeFile e w file initialData')
      | Rename \<Rightarrow>
          (case fileStat of
             None \<Rightarrow> Returns () w
           | Some st \<Rightarrow>
               (case (case renameFile options of
                        Some f \<Rightarrow> f file st w
                      | None \<Rightarrow> gzipCompressLog e w file st) of
                  Throws ex w' \<Rightarrow> Throws ex w'
                | Returns u w1 \<Rightarrow>
                    (case stat_or_null w1 file of
                       None \<Rightarrow> fs_writeFile e w1 file initialData'
                     | Some newStat \<Rightarrow> Returns () w1))))"

text \<open>\<open>static async createFileWriteStream(options)\<close>. The first statement,
  \<open>options.initialData ??= Utils.logDateHeader(new Date())\<close>, also stores the header in
  the caller's options object; the model keeps it in \<open>initial\<close>. The result is \<open>None\<close> when
  the wait for \<open>open\<close> never ends.\<close>

definition static_createFileWriteStream ::
    "env \<Rightarrow> world \<Rightarrow> WriteStreamOptions \<Rightarrow> stream_ref result option" where
  "static_createFileWriteStream e w options =
     (case (case initialData options of
              Some d \<Rightarrow> Inr d
            | None \<Rightarrow> map_sum id (\<lambda>h. Literal (ustr h)) (logDateHeader (TimeValue (now e)))) of
        Inl ex \<Rightarrow> Some (Throws ex w)
      | Inr initial \<Rightarrow>
          (let file = path_resolve e (path options);
               filePathInfo = path_parse file;
               fileStat = stat_or_null w file;
               initialData' = (case initial of Literal s \<Rightarrow> s | Computed f \<Rightarrow> f file) @ [10]
           in if (case fileStat of None \<Rightarrow> False | Some st \<Rightarrow> \<not> isFile st)
              then Some (Throws WriteStreamPathNotAFile w)
              else
                (case fs_mkdir e w (dir filePathInfo) of
                   Throws ex w' \<Rightarrow> Some (Throws ex w')
                 | Returns u w1 \<Rightarrow>
                     (case prepare_file e w1 options file fileStat initialData' of
                        Throws ex w' \<Rightarrow> Some (Throws ex w')
                      | Returns u w2 \<Rightarrow>
                          (case createWriteStream e w2 file (mode options = Append) of
                             None \<Rightarrow> None
                           | Some (writeStream, w3) \<Rightarrow>
                               (case fs_readFile w3 file of
                                  Throws ex w' \<Rightarrow> Some (Throws ex w')
                                | Returns content' w' \<Rightarrow>
                                    Some (Returns writeStream
                                      (if (case initial of Literal s \<Rightarrow> s \<noteq> [] | Computed f \<Rightarrow> True)
                                          \<and> content' = []
                                       then stream_write w3 writeStream initialData'
                                       else w3))))))))"

text \<open>\<open>async createFileWriteStream(options) { if (!this.isWriteStreamClosed) throw new
  Error('Write stream already created'); this.writeStream = await
  Logger.createFileWriteStream(options); return this; }\<close>\<close>

definition createFileWriteStream ::
    "env \<Rightarrow> world \<Rightarrow> ref \<Rightarrow> WriteStreamOptions \<Rightarrow> ref result option" where
  "createFileWriteStream e w this options =
     Option.bind (isWriteStreamClosed w this)
       (\<lambda>isClosed.
          if \<not> isClosed then Some (Throws WriteStreamAlreadyCreated w)
          else
            (case static_createFileWriteStream e w options of
               None \<Rightarrow> None
             | Some (Throws ex w') \<Rightarrow> Some (Throws ex w')
             | Some (Returns writeStream w1) \<Rightarrow>
                 map_option (\<lambda>h. Returns this (w1\<lparr>loggers := h\<rparr>))
                   (set_writeStream (loggers w1) this (Some writeStream))))"

subsection \<open>Example: rotating a log file\<close>

text \<open>A stand-in for the codec: its output starts with the two magic bytes of a gzip
  member, as every output of gzip does.\<close>

definition toy_gzip :: "byte list \<Rightarrow> byte list option" where
  "toy_gzip bs = Some ([0x1f, 0x8b, 0x08, 0, 0, 0, 0, 0, 0, 3] @ bs)"

text \<open>A process five hours west of UTC, and one in UTC.\<close>

definition est :: env where
  "est = \<lparr> now = 1700000000123, local_offset = (\<lambda>_. - 300), cwd = ''/'', gzip = toy_gzip,
           date_fallback = (\<lambda>_. InvalidDate) \<rparr>"

definition utc :: env where
  "utc = \<lparr> now = 1700000000123, local_offset = (\<lambda>_. 0), cwd = ''/'', gzip = toy_gzip,
           date_fallback = (\<lambda>_. InvalidDate) \<rparr>"

definition old_text :: ustring where
  "old_text = ustr ''[2023-01-01T00:00:00.000Z]'' @ [10] @ ustr ''hello'' @ [10]"

definition old_log :: fnode where
  "old_log = \<lparr> isFile = True, content = utf8_encode old_text,
               birthtimeMs = 1672531200000, ctimeMs = 1672531200000 \<rparr>"

text \<open>A root logger 0 without a stream, the directory \<open>/logs\<close> and the file
  \<open>/logs/latest.log\<close> with its header line and one line of content.\<close>

definition rotation_world :: world where
  "rotation_world =
     \<lparr> loggers = [0 \<mapsto> plain_logger None None], streams = (\<lambda>_. open_stream),
       next_stream = 0, console = [], invoked = [],
       files = [''/logs'' \<mapsto> \<lparr>isFile = False, content = [], birthtimeMs = 1, ctimeMs = 1\<rparr>,
                ''/logs/latest.log'' \<mapsto> old_log] \<rparr>"

definition rename_options :: WriteStreamOptions where
  "rename_options =
     \<lparr> path = ''/logs/latest.log'', mode = Rename, renameFile = None, initialData = None \<rparr>"

text \<open>The files of the rotation example; a root 0 holding the open stream 5, its child 1
  holding the closed stream 3, and the grandchild 2 without a stream of its own.\<close>

definition shadowed_world :: world where
  "shadowed_world =
     \<lparr> loggers = [0 \<mapsto> plain_logger None (Some 5), 1 \<mapsto> plain_logger (Some 0) (Some 3),
                  2 \<mapsto> plain_logger (Some 1) None],
       streams = (\<lambda>_. open_stream)(3 := open_stream\<lparr>closed := True\<rparr>),
       next_stream = 6, console = [], invoked = [],
       files = files rotation_world \<rparr>"

section \<open>Properties\<close>

lemma writeLevel_init_cases:
  "writeLevel_init Undefined ll = Some (coalesce ll Info)"
  "writeLevel_init Null ll = None"
  "writeLevel_init (Value L) ll = Some (coalesce ll Info)"
  by (cases L; simp add: writeLevel_init_def truthy_level_def)+

lemma chain_heap_cong:
  "chain h r as \<Longrightarrow> (\<And>q. map_option parent (h' q) = map_option parent (h q)) \<Longrightarrow> chain h' r as"
proof (induction as arbitrary: r)
  case Nil
  have "map_option parent (h' r) = map_option parent (h r)" using Nil(2) .
  with Nil(1) show ?case
    by (cases "h r"; cases "h' r") auto
next
  case (Cons p as)
  have "map_option parent (h' r) = map_option parent (h r)" using Cons.prems(2) .
  with Cons show ?case
    by (cases "h r"; cases "h' r") auto
qed

lemma chain_det: "chain h r as \<Longrightarrow> chain h r bs \<Longrightarrow> as = bs"
proof (induction as arbitrary: r bs)
  case Nil
  then show ?case by (cases bs) (auto split: option.splits)
next
  case (Cons p as)
  then show ?case by (cases bs) (auto split: option.splits)
qed

lemma chain_suffix:
  "chain h r as \<Longrightarrow> q \<in> set as \<Longrightarrow> \<exists>bs. chain h q bs \<and> length bs < length as"
proof (induction as arbitrary: r)
  case Nil
  then show ?case by simp
next
  case (Cons p as)
  from Cons.prems(1) have cp: "chain h p as" by (auto split: option.splits)
  show ?case
  proof (cases "q = p")
    case True
    with cp show ?thesis by auto
  next
    case False
    with Cons.prems(2) have "q \<in> set as" by simp
    from Cons.IH [OF cp this] show ?thesis by auto
  qed
qed

lemma chain_acyclic: "chain h r as \<Longrightarrow> r \<notin> set as"
  using chain_suffix chain_det by (metis less_irrefl)

lemma chain_distinct: "chain h r as \<Longrightarrow> distinct (r # as)"
proof (induction as arbitrary: r)
  case Nil
  then show ?case by simp
next
  case (Cons p as)
  from Cons.prems have cp: "chain h p as" by (auto split: option.splits)
  from Cons.IH [OF cp] chain_acyclic [OF Cons.prems] show ?case by simp
qed

lemma chain_dom: "chain h r as \<Longrightarrow> q \<in> set (r # as) \<Longrightarrow> h q \<noteq> None"
proof (induction as arbitrary: r)
  case Nil
  then show ?case by (auto split: option.splits)
next
  case (Cons p as)
  from Cons.prems have cp: "chain h p as" by (auto split: option.splits)
  from Cons.prems Cons.IH [OF cp] show ?case by (auto split: option.splits)
qed

lemma get_writeStream_chain:
  "chain h r as \<Longrightarrow> get_writeStream h r = Some (resolve h (r # as))"
proof (induction as arbitrary: r)
  case Nil
  then show ?case
    by (subst get_writeStream.simps) (auto split: option.splits)
next
  case (Cons p as)
  from Cons.prems have cp: "chain h p as" by (auto split: option.splits)
  from Cons.prems Cons.IH [OF cp] show ?case
    by (subst get_writeStream.simps) (auto split: option.splits)
qed


lemma resolve_cong: "(\<And>q. q \<in> set qs \<Longrightarrow> h' q = h q) \<Longrightarrow> resolve h' qs = resolve h qs"
  by (induction qs) (auto split: option.splits)

lemma resolve_None_Cons:
  "h p = Some l \<Longrightarrow> resolve h (p # as) = None \<Longrightarrow> own_writeStream l = None \<and> resolve h as = None"
  by (auto split: option.splits)

lemma set_writeStream_chain:
  "chain h r as \<Longrightarrow>
   set_writeStream h r v = Some (if resolve h as = None then assign h v (r # as) else assign h v [r])"
proof (induction as arbitrary: h r)
  case Nil
  then obtain l where l: "h r = Some l" "parent l = None" by (auto split: option.splits)
  have "h(r \<mapsto> l\<lparr>own_writeStream := v\<rparr>) = assign h v [r]"
    using l by (auto simp: assign_def fun_eq_iff)
  with l show ?case
    by (subst set_writeStream.simps) simp
next
  case (Cons p as)
  then obtain l where l: "h r = Some l" "parent l = Some p" and cp: "chain h p as"
    by (auto split: option.splits)
  define h1 where "h1 = h(r \<mapsto> l\<lparr>own_writeStream := v\<rparr>)"
  have acyc: "r \<notin> set (p # as)" using chain_acyclic [OF Cons.prems] .
  have "\<And>q. map_option parent (h1 q) = map_option parent (h q)"
    using l by (simp add: h1_def)
  then have cp1: "chain h1 p as" using cp chain_heap_cong by blast
  have same: "\<And>q. q \<in> set (p # as) \<Longrightarrow> h1 q = h q"
    using acyc by (auto simp: h1_def)
  have res1: "resolve h1 (p # as) = resolve h (p # as)"
    using same by (rule resolve_cong)
  have res2: "resolve h1 as = resolve h as"
    using same by (intro resolve_cong) simp
  have get1: "get_writeStream h1 p = Some (resolve h (p # as))"
    using get_writeStream_chain [OF cp1] res1 by simp
  have h1r: "h1 = assign h v [r]" using l by (auto simp: assign_def h1_def fun_eq_iff)
  show ?case
  proof (cases "resolve h (p # as)")
    case (Some s)
    with l get1 h1r show ?thesis
      by (subst set_writeStream.simps) (simp add: h1_def [symmetric])
  next
    case None
    obtain lp where lp: "h p = Some lp" using chain_dom [OF cp, of p] by auto
    from resolve_None_Cons [OF lp None] have ras: "resolve h as = None" by simp
    have "assign h1 v (p # as) = assign h v (r # p # as)"
      using l acyc by (auto simp: assign_def h1_def fun_eq_iff)
    with Cons.IH [OF cp1] res2 ras
    have "set_writeStream h1 p v = Some (assign h v (r # p # as))" by simp
    with l get1 None show ?thesis
      by (subst set_writeStream.simps) (simp add: h1_def [symmetric])
  qed
qed


lemma get_prop_Some: "get_prop (Some v) = v"
  by (simp add: get_prop_def)

lemma Logger_new_root:
  "opt_parent ob = None \<Longrightarrow>
   Logger_new h r (Some ob) =
     Some (h(r \<mapsto> \<lparr> own_writeStream = stored (get_prop (opt_writeStream ob)),
                     formatter = coalesce (get_prop (opt_formatter ob)) (NewFormatter r),
                     parent = None,
                     label = stored (get_prop (opt_label ob)),
                     objectInspectOptions = stored (get_prop (opt_objectInspectOptions ob)),
                     logLevel = Some (coalesce (get_prop (opt_logLevel ob)) Info),
                     writeLevel = writeLevel_init (get_prop (opt_writeLevel ob)) (get_prop (opt_logLevel ob)),
                     listeners = (\<lambda>_. []) \<rparr>))"
  unfolding Logger_new_def
  by (subst set_writeStream.simps) (simp add: opt_chain_def get_prop_def stored_def)

text \<open>
  C1 (the code departs from it). The claim: omitted \<open>writeLevel\<close> gives the console
  threshold, \<open>null\<close> gives \<open>null\<close>, and an explicit level \<open>L\<close> gives \<open>L\<close>. The first
  two hold (\<open>writeLevel_init_cases\<close>). For the third the constructor computes something
  else: a logger built with \<open>writeLevel: L\<close> gets the console threshold
  (\<open>logLevel ?? Info\<close>) as its write threshold, whatever \<open>L\<close> is.
\<close>

theorem writeLevel_option_ignored:
  "Option.bind
     (Logger_new h r (Some (no_options\<lparr>opt_logLevel := ll, opt_writeLevel := Some (Value L)\<rparr>)))
     (\<lambda>h'. map_option writeLevel (h' r))
   = Some (Some (coalesce (get_prop ll) Info))"
  by (simp add: Logger_new_root no_options_def writeLevel_init_cases get_prop_Some)

text \<open>
  C8 (amended). For a child \<open>c\<close> with parent \<open>p\<close> on a finite parent chain: the getter
  returns the logger's own stream if set, else what the parent's getter returns, up the
  chain; when the parent's getter returns no stream (neither the parent nor any logger
  above it holds one), assigning stream \<open>s\<close> to the child stores the same \<open>s\<close> in the child
  and in the parent, and both getters return it; and an ancestor that holds a stream of
  its own is left as it was by any assignment to the child.
\<close>

theorem writeStream_shared_with_parent:
  assumes "chain h c (p # as)"
  shows "(\<exists>lc. h c = Some lc \<and>
            get_writeStream h c =
              (case own_writeStream lc of Some s \<Rightarrow> Some (Some s) | None \<Rightarrow> get_writeStream h p))
       \<and> get_writeStream h p = Some (resolve h (p # as))
       \<and> (get_writeStream h p = Some None \<longrightarrow>
            (\<exists>h'. set_writeStream h c (Some s) = Some h'
                 \<and> map_option own_writeStream (h' c) = Some (Some s)
                 \<and> map_option own_writeStream (h' p) = Some (Some s)
                 \<and> get_writeStream h' c = Some (Some s)
                 \<and> get_writeStream h' p = Some (Some s)))
       \<and> (\<forall>a la t. a \<in> set (p # as) \<and> h a = Some la \<and> own_writeStream la = Some t \<longrightarrow>
            (\<exists>h'. set_writeStream h c v = Some h' \<and> h' a = Some la))"
proof -
  from assms obtain lc where lc: "h c = Some lc" "parent lc = Some p" and cp: "chain h p as"
    by (auto split: option.splits)
  obtain lp where lp: "h p = Some lp" using chain_dom [OF cp, of p] by auto
  have acyc: "c \<notin> set (p # as)" using chain_acyclic [OF assms] .
  have getp: "get_writeStream h p = Some (resolve h (p # as))"
    using get_writeStream_chain [OF cp] .
  have getc: "get_writeStream h c =
      (case own_writeStream lc of Some s \<Rightarrow> Some (Some s) | None \<Rightarrow> get_writeStream h p)"
    using lc by (subst get_writeStream.simps) (simp split: option.splits)
  have share: "\<exists>h'. set_writeStream h c (Some s) = Some h'
                 \<and> map_option own_writeStream (h' c) = Some (Some s)
                 \<and> map_option own_writeStream (h' p) = Some (Some s)
                 \<and> get_writeStream h' c = Some (Some s)
                 \<and> get_writeStream h' p = Some (Some s)"
    if none: "get_writeStream h p = Some None"
  proof -
    from none getp have "resolve h (p # as) = None" by simp
    with set_writeStream_chain [OF assms, of "Some s"]
    have eq: "set_writeStream h c (Some s) = Some (assign h (Some s) (c # p # as))"
      by (simp del: resolve.simps)
    let ?h = "assign h (Some s) (c # p # as)"
    have c': "?h c = Some (lc\<lparr>own_writeStream := Some s\<rparr>)" using lc by (simp add: assign_def)
    have p': "?h p = Some (lp\<lparr>own_writeStream := Some s\<rparr>)" using lp by (simp add: assign_def)
    have "get_writeStream ?h c = Some (Some s)"
      using c' by (subst get_writeStream.simps) simp
    moreover have "get_writeStream ?h p = Some (Some s)"
      using p' by (subst get_writeStream.simps) simp
    ultimately show ?thesis using eq c' p' by simp
  qed
  have keep: "\<exists>h'. set_writeStream h c v = Some h' \<and> h' a = Some la"
    if a: "a \<in> set (p # as)" "h a = Some la" "own_writeStream la = Some t" for a la t
  proof -
    have ne: "resolve h (p # as) \<noteq> None"
      using a cp
    proof (induction as arbitrary: p)
      case Nil
      then show ?case by simp
    next
      case (Cons q as)
      from Cons.prems(4) obtain l where l: "h p = Some l" "parent l = Some q" and cq: "chain h q as"
        by (auto split: option.splits)
      show ?case
      proof (cases "a = p")
        case True
        with Cons.prems l show ?thesis by simp
      next
        case False
        with Cons.prems(1) have "a \<in> set (q # as)" by simp
        from Cons.IH [OF this Cons.prems(2,3) cq] l show ?thesis
          by (simp split: option.splits)
      qed
    qed
    have "set_writeStream h c v = Some (assign h v [c])"
      using set_writeStream_chain [OF assms, of v] ne by (simp del: resolve.simps)
    moreover have "assign h v [c] a = h a" using a(1) acyc by (auto simp: assign_def)
    ultimately show ?thesis using a(2) by simp
  qed
  from lc getc getp share keep show ?thesis by blast
qed

theorem writeStream_shared_with_parent_witness:
  "chain family 1 [0]
   \<and> get_writeStream family 0 = Some None
   \<and> (\<exists>h'. set_writeStream family 1 (Some 7) = Some h'
          \<and> map_option own_writeStream (h' 1) = Some (Some 7)
          \<and> map_option own_writeStream (h' 0) = Some (Some 7)
          \<and> get_writeStream h' 1 = Some (Some 7)
          \<and> get_writeStream h' 0 = Some (Some 7))
   \<and> chain family_with_stream 2 [1, 0]
   \<and> (\<exists>h'. set_writeStream family_with_stream 2 (Some 9) = Some h'
          \<and> h' 0 = Some (plain_logger None (Some 5)))"
proof -
  have c1: "chain family 1 [0]" by (simp add: family_def plain_logger_def)
  have c2: "chain family_with_stream 2 [1, 0]"
    by (simp add: family_with_stream_def plain_logger_def)
  note t1 = writeStream_shared_with_parent [OF c1, of 7 None]
  note t2 = writeStream_shared_with_parent [OF c2, of 9 "Some 9"]
  from t1 have g: "get_writeStream family 0 = Some None"
    by (simp add: family_def plain_logger_def)
  from t2 have "\<exists>h'. set_writeStream family_with_stream 2 (Some 9) = Some h'
          \<and> h' 0 = Some (plain_logger None (Some 5))"
    by (simp add: family_with_stream_def plain_logger_def)
  with c1 c2 g t1 show ?thesis by simp
qed

text \<open>
  C8 as stated fails: the child 2 and its parent 1 hold no stream, but the grandparent 0
  holds stream 5. Assigning stream 9 to the child leaves the parent without a stream of
  its own, and the parent's getter still returns 5, not 9.
\<close>

theorem stream_above_parent_blocks_sharing:
  "chain family_with_stream 2 [1, 0]
   \<and> map_option own_writeStream (family_with_stream 2) = Some None
   \<and> map_option own_writeStream (family_with_stream 1) = Some None
   \<and> Option.bind (set_writeStream family_with_stream 2 (Some 9))
         (\<lambda>h'. map_option own_writeStream (h' 2)) = Some (Some 9)
   \<and> Option.bind (set_writeStream family_with_stream 2 (Some 9))
         (\<lambda>h'. map_option own_writeStream (h' 1)) = Some None
   \<and> Option.bind (set_writeStream family_with_stream 2 (Some 9))
         (\<lambda>h'. get_writeStream h' 1) = Some (Some 5)"
proof -
  have c: "chain family_with_stream 2 [1, 0]"
    by (simp add: family_with_stream_def plain_logger_def)
  have r: "resolve family_with_stream [1, 0] = Some 5"
    by (simp add: family_with_stream_def plain_logger_def)
  have s: "set_writeStream family_with_stream 2 (Some 9) = Some (assign family_with_stream (Some 9) [2])"
    using set_writeStream_chain [OF c, of "Some 9"] r by (simp del: resolve.simps)
  let ?h = "assign family_with_stream (Some 9) [2]"
  have c1: "chain ?h 1 [0]"
    by (simp add: assign_def family_with_stream_def plain_logger_def)
  have g: "get_writeStream ?h 1 = Some (Some 5)"
    unfolding get_writeStream_chain [OF c1]
    by (simp add: assign_def family_with_stream_def plain_logger_def)
  have o: "map_option own_writeStream (family_with_stream 2) = Some None"
    "map_option own_writeStream (family_with_stream 1) = Some None"
    "map_option own_writeStream (?h 2) = Some (Some 9)"
    "map_option own_writeStream (?h 1) = Some None"
    by (simp_all add: assign_def family_with_stream_def plain_logger_def)
  show ?thesis unfolding s using c g o by simp
qed

lemma truthy_level_all: "truthy_level t"
  by (cases t) (simp_all add: truthy_level_def)

lemma passes_iff: "passes threshold level = (\<exists>t. threshold = Some t \<and> level_value t \<le> level_value level)"
  by (cases threshold) (simp_all add: passes_def truthy_level_all)

lemma emit_chain:
  "chain (loggers w) r as \<Longrightarrow>
   \<exists>res. emit w r ev args =
     Some (res, w\<lparr>invoked := invoked w @ concat (map (\<lambda>q. calls_at (loggers w) q ev args) (r # as))\<rparr>)"
proof (induction as arbitrary: w r)
  case Nil
  then obtain l where l: "loggers w r = Some l" "parent l = None" by (auto split: option.splits)
  then show ?case
    by (subst emit.simps) (simp add: dispatch_def calls_at_def)
next
  case (Cons p as)
  then obtain l where l: "loggers w r = Some l" "parent l = Some p"
    and cp: "chain (loggers w) p as" by (auto split: option.splits)
  let ?w1 = "dispatch w r l ev args"
  have lw: "loggers ?w1 = loggers w" by (simp add: dispatch_def)
  from cp lw have "chain (loggers ?w1) p as" by simp
  from Cons.IH [OF this] obtain res where
    "emit ?w1 p ev args =
       Some (res, ?w1\<lparr>invoked := invoked ?w1 @ concat (map (\<lambda>q. calls_at (loggers ?w1) q ev args) (p # as))\<rparr>)"
    by blast
  with l lw show ?case
    by (subst emit.simps) (simp add: dispatch_def calls_at_def)
qed

lemma print_chain:
  assumes "chain (loggers w) r as" and "loggers w r = Some l"
  shows "print F w r level data =
    Some (let options = \<lparr>fo_level = level, fo_messages = data, fo_logger = r\<rparr>;
              pretty = formatConsoleLog F (formatter l) options;
              simple = formatWriteStreamLog F (formatter l) options;
              w1 = w\<lparr>invoked := invoked w @ concat (map (\<lambda>q. calls_at (loggers w) q level
                       \<lparr>fo_level = level, fo_messages = data, fo_logger = r,
                        pretty = pretty, simple = simple\<rparr>) (r # as))\<rparr>;
              w2 = (if passes (logLevel l) level
                    then w1\<lparr>console := console w1 @ [(console_of level, pretty)]\<rparr> else w1)
          in case resolve (loggers w) (r # as) of
               None \<Rightarrow> w2
             | Some s \<Rightarrow>
                 if \<not> closed (streams w s) \<and> \<not> destroyed (streams w s) \<and> passes (writeLevel l) level
                 then stream_write w2 s (simple @ [10]) else w2)"
proof -
  let ?ev = "\<lparr>fo_level = level, fo_messages = data, fo_logger = r,
              pretty = formatConsoleLog F (formatter l) \<lparr>fo_level = level, fo_messages = data, fo_logger = r\<rparr>,
              simple = formatWriteStreamLog F (formatter l) \<lparr>fo_level = level, fo_messages = data, fo_logger = r\<rparr>\<rparr>"
  from emit_chain [OF assms(1), of level ?ev] obtain res where
    em: "emit w r level ?ev =
      Some (res, w\<lparr>invoked := invoked w @ concat (map (\<lambda>q. calls_at (loggers w) q level ?ev) (r # as))\<rparr>)"
    by blast
  have g: "get_writeStream (loggers w) r = Some (resolve (loggers w) (r # as))"
    using get_writeStream_chain [OF assms(1)] .
  show ?thesis
    unfolding print_def
    by (simp add: assms(2) em g isWriteStreamClosed_def Let_def del: resolve.simps split: option.splits)
qed


text \<open>
  C5. For a logger on a finite parent chain, \<open>print\<close> at level \<open>L\<close> returns, and
  \<^item> the console receives the pretty string, on the sink of \<open>L\<close>, exactly when the console
    threshold is a level \<open>t\<close> with \<open>t \<le> L\<close>, and nothing otherwise (so nothing for \<open>null\<close>);
  \<^item> the simple string and a newline are written to the stream exactly when a stream
    resolves through the chain, it is neither closed nor destroyed, and the write
    threshold is a level \<open>t\<close> with \<open>t \<le> L\<close>; otherwise no stream changes.
\<close>

theorem print_thresholds:
  assumes "chain (loggers w) r as" and "loggers w r = Some l"
  shows "\<exists>w'. print F w r level data = Some w'
     \<and> console w' = console w @
          (if (\<exists>t. logLevel l = Some t \<and> level_value t \<le> level_value level)
           then [(console_of level,
                  formatConsoleLog F (formatter l) \<lparr>fo_level = level, fo_messages = data, fo_logger = r\<rparr>)]
           else [])
     \<and> streams w' =
          (case resolve (loggers w) (r # as) of
             None \<Rightarrow> streams w
           | Some s \<Rightarrow>
               if \<not> closed (streams w s) \<and> \<not> destroyed (streams w s)
                  \<and> (\<exists>t. writeLevel l = Some t \<and> level_value t \<le> level_value level)
               then (streams w)(s := (streams w s)\<lparr>chunks := chunks (streams w s) @
                      [formatWriteStreamLog F (formatter l)
                         \<lparr>fo_level = level, fo_messages = data, fo_logger = r\<rparr> @ [10]]\<rparr>)
               else streams w)"
proof -
  have "\<exists>w'. print F w r level data = Some w'
     \<and> console w' = console w @
          (if passes (logLevel l) level
           then [(console_of level,
                  formatConsoleLog F (formatter l) \<lparr>fo_level = level, fo_messages = data, fo_logger = r\<rparr>)]
           else [])
     \<and> streams w' =
          (case resolve (loggers w) (r # as) of
             None \<Rightarrow> streams w
           | Some s \<Rightarrow>
               if \<not> closed (streams w s) \<and> \<not> destroyed (streams w s)
                  \<and> passes (writeLevel l) level
               then (streams w)(s := (streams w s)\<lparr>chunks := chunks (streams w s) @
                      [formatWriteStreamLog F (formatter l)
                         \<lparr>fo_level = level, fo_messages = data, fo_logger = r\<rparr> @ [10]]\<rparr>)
               else streams w)"
    unfolding print_chain [OF assms]
    by (simp add: Let_def stream_write_def del: resolve.simps split: option.splits)
  then show ?thesis unfolding passes_iff .
qed

theorem print_thresholds_witness:
  "chain (loggers listening_world) 2 [1, 0]
   \<and> (\<exists>w'. print plain_formatters listening_world 2 Warn [] = Some w'
         \<and> console w' = [(console_warn, [112])]
         \<and> chunks (streams w' 5) = [[115, 10]])
   \<and> (\<exists>w'. print plain_formatters listening_world 2 Debug [] = Some w'
         \<and> console w' = []
         \<and> chunks (streams w' 5) = [])"
proof -
  have c: "chain (loggers listening_world) 2 [1, 0]"
    by (simp add: listening_world_def plain_logger_def)
  have l: "loggers listening_world 2 = Some ((plain_logger (Some 1) None)\<lparr>listeners := (\<lambda>_. [12, 13])\<rparr>)"
    by (simp add: listening_world_def)
  have r: "resolve (loggers listening_world) [2, 1, 0] = Some 5"
    by (simp add: listening_world_def plain_logger_def)
  from print_thresholds [OF c l, of plain_formatters Warn "[]"] r
  have a: "\<exists>w'. print plain_formatters listening_world 2 Warn [] = Some w'
         \<and> console w' = [(console_warn, [112])]
         \<and> chunks (streams w' 5) = [[115, 10]]"
    by (auto simp: listening_world_def plain_logger_def plain_formatters_def open_stream_def console_of_def)
  from print_thresholds [OF c l, of plain_formatters Debug "[]"] r
  have b: "\<exists>w'. print plain_formatters listening_world 2 Debug [] = Some w'
         \<and> console w' = []
         \<and> chunks (streams w' 5) = []"
    by (auto simp: listening_world_def plain_logger_def plain_formatters_def open_stream_def console_of_def)
  from a b c show ?thesis by blast
qed

text \<open>
  C6. For a logger \<open>r\<close> with ancestors \<open>as\<close> (parent first, root last), one \<open>emit\<close>, and
  so one \<open>print\<close> and one call of any level method, makes the listener calls of \<open>r\<close>, then
  those of each ancestor in the order of \<open>as\<close>, for that level's event; the loggers of
  \<open>r # as\<close> are distinct, so each is dispatched at exactly once.
\<close>

theorem events_bubble_to_root:
  assumes "chain (loggers w) r as" and "loggers w r = Some l"
  shows "(\<exists>res. emit w r level args =
            Some (res, w\<lparr>invoked := invoked w @ concat (map (\<lambda>q. calls_at (loggers w) q level args) (r # as))\<rparr>))
     \<and> (\<exists>w'. print F w r level data = Some w'
           \<and> invoked w' = invoked w @ concat (map (\<lambda>q. calls_at (loggers w) q level
                \<lparr>fo_level = level, fo_messages = data, fo_logger = r,
                 pretty = formatConsoleLog F (formatter l) \<lparr>fo_level = level, fo_messages = data, fo_logger = r\<rparr>,
                 simple = formatWriteStreamLog F (formatter l) \<lparr>fo_level = level, fo_messages = data, fo_logger = r\<rparr>\<rparr>)
                (r # as)))
     \<and> distinct (r # as)
     \<and> error F w r data = print F w r Error data \<and> warning F w r data = print F w r Warn data
     \<and> info F w r data = print F w r Info data \<and> debug F w r data = print F w r Debug data
     \<and> log F w r data = print F w r Info data \<and> warn F w r data = print F w r Warn data
     \<and> err F w r data = print F w r Error data"
proof -
  have "\<exists>w'. print F w r level data = Some w'
           \<and> invoked w' = invoked w @ concat (map (\<lambda>q. calls_at (loggers w) q level
                \<lparr>fo_level = level, fo_messages = data, fo_logger = r,
                 pretty = formatConsoleLog F (formatter l) \<lparr>fo_level = level, fo_messages = data, fo_logger = r\<rparr>,
                 simple = formatWriteStreamLog F (formatter l) \<lparr>fo_level = level, fo_messages = data, fo_logger = r\<rparr>\<rparr>)
                (r # as))"
    unfolding print_chain [OF assms]
    by (simp add: Let_def stream_write_def del: resolve.simps split: option.splits)
  with emit_chain [OF assms(1)] chain_distinct [OF assms(1)] show ?thesis
    by (simp add: error_def warning_def info_def debug_def log_def warn_def err_def)
qed

theorem events_bubble_to_root_witness:
  "chain (loggers listening_world) 2 [1, 0]
   \<and> (\<exists>w'. warn plain_formatters listening_world 2 [] = Some w'
         \<and> map (\<lambda>c. (at_logger c, listener c)) (invoked w') = [(2, 12), (2, 13), (1, 11), (0, 10)])"
proof -
  let ?l = "(plain_logger (Some 1) None)\<lparr>listeners := (\<lambda>_. [12, 13])\<rparr>"
  let ?o = "\<lparr>fo_level = Warn, fo_messages = [], fo_logger = 2\<rparr>"
  let ?E = "\<lparr>fo_level = Warn, fo_messages = [], fo_logger = 2,
             pretty = formatConsoleLog plain_formatters (formatter ?l) ?o,
             simple = formatWriteStreamLog plain_formatters (formatter ?l) ?o\<rparr>"
  have c: "chain (loggers listening_world) 2 [1, 0]"
    by (simp add: listening_world_def plain_logger_def)
  have l: "loggers listening_world 2 = Some ?l"
    by (simp add: listening_world_def)
  note t = events_bubble_to_root [OF c l, where level = Warn and F = plain_formatters
      and data = "[]" and args = ?E]
  then obtain w' where p: "print plain_formatters listening_world 2 Warn [] = Some w'"
    and i: "invoked w' = invoked listening_world @
              concat (map (\<lambda>q. calls_at (loggers listening_world) q Warn ?E) [2, 1, 0])"
    by blast
  from p t have "warn plain_formatters listening_world 2 [] = Some w'" by simp
  moreover have "map (\<lambda>c. (at_logger c, listener c)) (invoked w') = [(2, 12), (2, 13), (1, 11), (0, 10)]"
    unfolding i by (simp add: listening_world_def plain_logger_def calls_at_def)
  ultimately show ?thesis using c by auto
qed

text \<open>
  C2 (the code departs from it). The claim: an open stream is closed, and with a closed
  stream or none the promise resolves at once. The code tests the opposite condition:
  while the stream is open the promise resolves at once and the world is unchanged (the
  stream stays open); when the logger resolves no stream, \<open>close\<close> is never called and
  neither is \<open>resolve\<close>, so the promise never settles.
\<close>

theorem closeFileWriteStream_inverted:
  "(isWriteStreamClosed w r = Some False \<longrightarrow> closeFileWriteStream w r = Some (r, w))
   \<and> (get_writeStream (loggers w) r = Some None \<longrightarrow> closeFileWriteStream w r = None)"
  by (simp add: closeFileWriteStream_def isWriteStreamClosed_def)

theorem closeFileWriteStream_inverted_witness:
  "isWriteStreamClosed listening_world 2 = Some False
   \<and> closeFileWriteStream listening_world 2 = Some (2, listening_world)
   \<and> closed (streams listening_world 5) = False
   \<and> get_writeStream (loggers streamless_world) 1 = Some None
   \<and> closeFileWriteStream streamless_world 1 = None"
proof -
  have c: "chain (loggers listening_world) 2 [1, 0]"
    by (simp add: listening_world_def plain_logger_def)
  have a: "isWriteStreamClosed listening_world 2 = Some False"
    unfolding isWriteStreamClosed_def get_writeStream_chain [OF c]
    by (simp add: listening_world_def plain_logger_def open_stream_def)
  have c': "chain (loggers streamless_world) 1 [0]"
    by (simp add: streamless_world_def family_def plain_logger_def)
  have b: "get_writeStream (loggers streamless_world) 1 = Some None"
    unfolding get_writeStream_chain [OF c']
    by (simp add: streamless_world_def family_def plain_logger_def)
  from a b closeFileWriteStream_inverted [of listening_world 2]
    closeFileWriteStream_inverted [of streamless_world 1]
  show ?thesis by (simp add: listening_world_def open_stream_def)
qed

lemma chain_frame:
  "chain h p xs \<Longrightarrow> (\<And>q. q \<in> set (p # xs) \<Longrightarrow> h' q = h q) \<Longrightarrow> chain h' p xs"
proof (induction xs arbitrary: p)
  case Nil
  then show ?case by simp
next
  case (Cons x xs)
  from Cons.prems(1) have cx: "chain h x xs" by (auto split: option.splits)
  have "chain h' x xs" using Cons.IH [OF cx] Cons.prems(2) by simp
  moreover have "h' p = h p" using Cons.prems(2) by simp
  ultimately show ?case using Cons.prems(1) by (auto split: option.splits)
qed

lemma stored_as_jsval: "stored (as_jsval x) = x"
  by (cases x) (simp_all add: stored_def as_jsval_def)

lemma Logger_new_fields:
  assumes fresh: "h r = None"
    and par: "case stored (get_prop (opt_parent ob)) of None \<Rightarrow> True | Some p \<Rightarrow> chain h p xs"
  shows "\<exists>h1. Logger_new h r (Some ob) = Some h1 \<and>
     h1 r = Some \<lparr> own_writeStream = stored (get_prop (opt_writeStream ob)),
                    formatter = coalesce (get_prop (opt_formatter ob)) (NewFormatter r),
                    parent = stored (get_prop (opt_parent ob)),
                    label = stored (get_prop (opt_label ob)),
                    objectInspectOptions = stored (get_prop (opt_objectInspectOptions ob)),
                    logLevel = Some (coalesce (get_prop (opt_logLevel ob)) Info),
                    writeLevel = writeLevel_init (get_prop (opt_writeLevel ob)) (get_prop (opt_logLevel ob)),
                    listeners = (\<lambda>_. []) \<rparr>"
proof -
  let ?P = "stored (get_prop (opt_parent ob))"
  let ?v = "stored (get_prop (opt_writeStream ob))"
  let ?new = "\<lparr> own_writeStream = None,
                 formatter = coalesce (get_prop (opt_formatter ob)) (NewFormatter r),
                 parent = ?P, label = stored (get_prop (opt_label ob)),
                 objectInspectOptions = None, logLevel = None, writeLevel = None,
                 listeners = (\<lambda>_. []) \<rparr>"
  let ?h0 = "h(r \<mapsto> ?new)"
  have "\<exists>ys. chain ?h0 r ys"
  proof (cases ?P)
    case None
    then have "chain ?h0 r []" by simp
    then show ?thesis by blast
  next
    case (Some p)
    with par have cp: "chain h p xs" by simp
    have "r \<notin> set (p # xs)" using chain_dom [OF cp] fresh by blast
    then have "\<And>q. q \<in> set (p # xs) \<Longrightarrow> ?h0 q = h q" by auto
    with cp have "chain ?h0 p xs" by (rule chain_frame)
    with Some have "chain ?h0 r (p # xs)" by simp
    then show ?thesis by blast
  qed
  then obtain ys where ys: "chain ?h0 r ys" by blast
  from set_writeStream_chain [OF ys, of ?v]
  obtain h1 where h1: "set_writeStream ?h0 r ?v = Some h1"
    and h1r: "h1 r = Some (?new\<lparr>own_writeStream := ?v\<rparr>)"
    by (auto simp: assign_def simp del: resolve.simps)
  show ?thesis
    unfolding Logger_new_def
    by (simp add: opt_chain_def h1 h1r Let_def)
qed

lemma toJSON_chain:
  assumes "chain h this as" and "h this = Some l"
  shows "toJSON h this =
    Some \<lparr> opt_formatter = Some (Value (formatter l)),
           opt_parent = Some (as_jsval (parent l)),
           opt_label = Some (as_jsval (label l)),
           opt_writeStream = Some (as_jsval (resolve h (this # as))),
           opt_objectInspectOptions = Some (as_jsval (objectInspectOptions l)),
           opt_logLevel = Some (nullable (logLevel l)),
           opt_writeLevel = Some (nullable (writeLevel l)) \<rparr>"
  unfolding toJSON_def get_writeStream_chain [OF assms(1)]
  by (simp add: assms(2) del: resolve.simps)

lemma clone_unfold:
  assumes "chain h this as" and "h this = Some l"
  shows "clone h r this options inheritParent =
    Logger_new h r (Some (spread
      \<lparr> opt_formatter = Some (Value (formatter l)),
        opt_parent = Some (if inheritParent then as_jsval (parent l) else Value this),
        opt_label = Some (as_jsval (label l)),
        opt_writeStream = Some (as_jsval (resolve h (this # as))),
        opt_objectInspectOptions = Some (as_jsval (objectInspectOptions l)),
        opt_logLevel = Some (nullable (logLevel l)),
        opt_writeLevel = Some (nullable (writeLevel l)) \<rparr> options))"
  unfolding clone_def toJSON_chain [OF assms] by (simp add: assms(2))

text \<open>
  C7 (amended). For a logger on a finite parent chain, a fresh reference for the clone, and
  options that do not set \<open>parent\<close>: \<open>clone\<close> returns a logger whose parent is the
  original's parent when \<open>inheritParent\<close> is true and the original itself when it is false;
  whose formatter, label and inspect options are the original's unless the options set
  them; and whose own stream is the stream the original resolves unless the options set
  one. (An option that sets \<open>parent\<close> wins over both, by the order of the spread.)
\<close>

theorem clone_copies_configuration:
  assumes "chain h this as" and "h this = Some l" and "h r = None"
    and "Option.bind options opt_parent = None"
  shows "\<exists>h' l'. clone h r this options inheritParent = Some h' \<and> h' r = Some l'
    \<and> parent l' = (if inheritParent then parent l else Some this)
    \<and> formatter l' =
        (case Option.bind options opt_formatter of
           None \<Rightarrow> formatter l | Some v \<Rightarrow> coalesce v (NewFormatter r))
    \<and> label l' =
        (case Option.bind options opt_label of None \<Rightarrow> label l | Some v \<Rightarrow> stored v)
    \<and> objectInspectOptions l' =
        (case Option.bind options opt_objectInspectOptions of
           None \<Rightarrow> objectInspectOptions l | Some v \<Rightarrow> stored v)
    \<and> own_writeStream l' =
        (case Option.bind options opt_writeStream of
           None \<Rightarrow> resolve h (this # as) | Some v \<Rightarrow> stored v)"
proof -
  let ?json = "\<lparr> opt_formatter = Some (Value (formatter l)),
           opt_parent = Some (as_jsval (parent l)),
           opt_label = Some (as_jsval (label l)),
           opt_writeStream = Some (as_jsval (resolve h (this # as))),
           opt_objectInspectOptions = Some (as_jsval (objectInspectOptions l)),
           opt_logLevel = Some (nullable (logLevel l)),
           opt_writeLevel = Some (nullable (writeLevel l)) \<rparr>"
  let ?P = "if inheritParent then as_jsval (parent l) else Value this"
  let ?ob = "spread (?json\<lparr>opt_parent := Some ?P\<rparr>) options"
  have cl: "clone h r this options inheritParent = Logger_new h r (Some ?ob)"
    unfolding clone_def toJSON_chain [OF assms(1,2)] by (simp add: assms(2))
  have par: "opt_parent ?ob = Some ?P"
    using assms(4) by (cases options) (simp_all add: spread_def spread_key_def)
  have sp: "stored (get_prop (opt_parent ?ob)) = (if inheritParent then parent l else Some this)"
    unfolding par by (simp add: get_prop_Some stored_as_jsval) (simp add: stored_def)
  have "\<exists>xs. case stored (get_prop (opt_parent ?ob)) of None \<Rightarrow> True | Some p \<Rightarrow> chain h p xs"
  proof (cases inheritParent)
    case False
    with sp assms(1) show ?thesis by auto
  next
    case True
    show ?thesis
    proof (cases as)
      case Nil
      with assms(1,2) have "parent l = None" by simp
      with sp True show ?thesis by simp
    next
      case (Cons p as')
      with assms(1,2) have "parent l = Some p" "chain h p as'" by simp_all
      with sp True show ?thesis by auto
    qed
  qed
  then obtain xs where xs: "case stored (get_prop (opt_parent ?ob)) of None \<Rightarrow> True | Some p \<Rightarrow> chain h p xs"
    by blast
  from Logger_new_fields [OF assms(3) xs] obtain h1 where
    h1: "Logger_new h r (Some ?ob) = Some h1" and
    l1: "h1 r = Some \<lparr> own_writeStream = stored (get_prop (opt_writeStream ?ob)),
                    formatter = coalesce (get_prop (opt_formatter ?ob)) (NewFormatter r),
                    parent = stored (get_prop (opt_parent ?ob)),
                    label = stored (get_prop (opt_label ?ob)),
                    objectInspectOptions = stored (get_prop (opt_objectInspectOptions ?ob)),
                    logLevel = Some (coalesce (get_prop (opt_logLevel ?ob)) Info),
                    writeLevel = writeLevel_init (get_prop (opt_writeLevel ?ob)) (get_prop (opt_logLevel ?ob)),
                    listeners = (\<lambda>_. []) \<rparr>"
    by blast
  have f: "coalesce (get_prop (opt_formatter ?ob)) (NewFormatter r) =
      (case Option.bind options opt_formatter of
           None \<Rightarrow> formatter l | Some v \<Rightarrow> coalesce v (NewFormatter r))"
    by (cases options) (simp_all add: spread_def spread_key_def get_prop_Some coalesce_def split: option.splits)
  have lb: "stored (get_prop (opt_label ?ob)) =
      (case Option.bind options opt_label of None \<Rightarrow> label l | Some v \<Rightarrow> stored v)"
    by (cases options) (simp_all add: spread_def spread_key_def get_prop_Some stored_as_jsval split: option.splits)
  have io: "stored (get_prop (opt_objectInspectOptions ?ob)) =
      (case Option.bind options opt_objectInspectOptions of
           None \<Rightarrow> objectInspectOptions l | Some v \<Rightarrow> stored v)"
    by (cases options) (simp_all add: spread_def spread_key_def get_prop_Some stored_as_jsval split: option.splits)
  have ws: "stored (get_prop (opt_writeStream ?ob)) =
      (case Option.bind options opt_writeStream of
           None \<Rightarrow> resolve h (this # as) | Some v \<Rightarrow> stored v)"
    by (cases options)
       (simp_all add: spread_def spread_key_def get_prop_Some stored_as_jsval del: resolve.simps split: option.splits)
  show ?thesis
    unfolding cl h1 using l1 sp f lb io ws by simp
qed


theorem clone_copies_configuration_witness:
  "chain family_with_stream 2 [1, 0] \<and> family_with_stream 3 = None
   \<and> (\<exists>h' l'. clone family_with_stream 3 2 (Some (no_options\<lparr>opt_label := Some (Value ''X'')\<rparr>)) True = Some h'
          \<and> h' 3 = Some l' \<and> parent l' = Some 1 \<and> label l' = Some ''X''
          \<and> formatter l' = Supplied 0 \<and> own_writeStream l' = Some 5)
   \<and> (\<exists>h' l'. clone family_with_stream 3 2 (Some no_options) False = Some h'
          \<and> h' 3 = Some l' \<and> parent l' = Some 2)"
proof -
  have c: "chain family_with_stream 2 [1, 0]"
    by (simp add: family_with_stream_def plain_logger_def)
  have l: "family_with_stream 2 = Some (plain_logger (Some 1) None)"
    by (simp add: family_with_stream_def)
  have f: "family_with_stream 3 = None"
    by (simp add: family_with_stream_def)
  have r: "resolve family_with_stream [2, 1, 0] = Some 5"
    by (simp add: family_with_stream_def plain_logger_def)
  have a: "\<exists>h' l'. clone family_with_stream 3 2 (Some (no_options\<lparr>opt_label := Some (Value ''X'')\<rparr>)) True = Some h'
          \<and> h' 3 = Some l' \<and> parent l' = Some 1 \<and> label l' = Some ''X''
          \<and> formatter l' = Supplied 0 \<and> own_writeStream l' = Some 5"
    using clone_copies_configuration [OF c l f, of "Some (no_options\<lparr>opt_label := Some (Value ''X'')\<rparr>)" True] r
    by (auto simp: no_options_def plain_logger_def stored_def simp del: resolve.simps)
  have b: "\<exists>h' l'. clone family_with_stream 3 2 (Some no_options) False = Some h'
          \<and> h' 3 = Some l' \<and> parent l' = Some 2"
    using clone_copies_configuration [OF c l f, of "Some no_options" False]
    by (auto simp: no_options_def)
  from a b c f show ?thesis by blast
qed

text \<open>
  C7 as stated fails: cloning logger 1 (parent 0, write threshold \<open>Error\<close>) with the
  options \<open>{parent: 2}\<close> and the default \<open>inheritParent\<close> gives a logger whose parent is 2,
  not the original's parent 0, and whose write threshold is \<open>Info\<close>, not \<open>Error\<close>.
\<close>

theorem clone_overrides_parent_and_resets_writeLevel:
  "Option.bind (clone clone_example 3 1 (Some (no_options\<lparr>opt_parent := Some (Value 2)\<rparr>)) True)
     (\<lambda>h'. map_option (\<lambda>l'. (parent l', writeLevel l')) (h' 3)) = Some (Some 2, Some Info)
   \<and> map_option (\<lambda>l. (parent l, writeLevel l)) (clone_example 1) = Some (Some 0, Some Error)"
proof -
  let ?l = "(plain_logger (Some 0) None)\<lparr>writeLevel := Some Error\<rparr>"
  have c: "chain clone_example 1 [0]"
    by (simp add: clone_example_def plain_logger_def)
  have l: "clone_example 1 = Some ?l"
    by (simp add: clone_example_def)
  have f: "clone_example 3 = None"
    by (simp add: clone_example_def)
  have c2: "chain clone_example 2 []"
    by (simp add: clone_example_def plain_logger_def)
  note u = clone_unfold [OF c l, of 3 "Some (no_options\<lparr>opt_parent := Some (Value 2)\<rparr>)" True]
  let ?ob = "spread
      \<lparr> opt_formatter = Some (Value (formatter ?l)),
        opt_parent = Some (if True then as_jsval (parent ?l) else Value 1),
        opt_label = Some (as_jsval (label ?l)),
        opt_writeStream = Some (as_jsval (resolve clone_example [1, 0])),
        opt_objectInspectOptions = Some (as_jsval (objectInspectOptions ?l)),
        opt_logLevel = Some (nullable (logLevel ?l)),
        opt_writeLevel = Some (nullable (writeLevel ?l)) \<rparr>
      (Some (no_options\<lparr>opt_parent := Some (Value 2)\<rparr>))"
  have p: "stored (get_prop (opt_parent ?ob)) = Some 2"
    by (simp add: spread_def spread_key_def no_options_def get_prop_Some stored_def)
  have "case stored (get_prop (opt_parent ?ob)) of None \<Rightarrow> True | Some p \<Rightarrow> chain clone_example p []"
    unfolding p using c2 by simp
  from Logger_new_fields [OF f this] obtain h1 where
    h1: "Logger_new clone_example 3 (Some ?ob) = Some h1"
    and p1: "map_option (\<lambda>l'. (parent l', writeLevel l')) (h1 3) = Some (Some 2, Some Info)"
    by (auto simp: spread_def spread_key_def no_options_def get_prop_Some stored_def
        plain_logger_def nullable_def writeLevel_init_cases coalesce_def)
  have a: "Option.bind (clone clone_example 3 1 (Some (no_options\<lparr>opt_parent := Some (Value 2)\<rparr>)) True)
     (\<lambda>h'. map_option (\<lambda>l'. (parent l', writeLevel l')) (h' 3)) = Some (Some 2, Some Info)"
    unfolding u h1 using p1 by simp
  have b: "map_option (\<lambda>l. (parent l, writeLevel l)) (clone_example 1) = Some (Some 0, Some Error)"
    unfolding l by (simp add: plain_logger_def)
  from a b show ?thesis by blast
qed

text \<open>The platform model on known values: the epoch and the date of the example as
  \<open>toISOString\<close> writes them, and the euro sign in UTF-8.\<close>

lemma toISOString_examples:
  "toISOString (TimeValue 0) = Inr ''1970-01-01T00:00:00.000Z''"
  "toISOString (TimeValue 1672531200000) = Inr ''2023-01-01T00:00:00.000Z''"
  "toISOString InvalidDate = Inl RangeError"
  by code_simp+

lemma utf8_examples:
  "utf8_decode [0xE2, 0x82, 0xAC] = [0x20AC]"
  "utf8_encode [0x20AC] = [0xE2, 0x82, 0xAC]"
  "utf8_decode [0x41, 0x8B, 0x42] = [0x41, 0xFFFD, 0x42]"
  by (simp_all add: utf8_decode_def utf8_encode_def utf8_encode_cp_def)

lemma join_split: "join_with sep (split_on sep xs) = xs"
proof (induction xs)
  case Nil
  then show ?case by simp
next
  case (Cons x xs)
  then show ?case
    by (cases "split_on sep xs"; cases "tl (split_on sep xs)") (auto split: list.splits)
qed

lemma split_on_not_Nil: "split_on sep xs \<noteq> []"
  by (induction xs) (auto split: list.splits)

lemma utf8_decode_Nil: "utf8_decode [] = []"
  by (simp add: utf8_decode_def)

lemma utf8_gzip_magic:
  "utf8_encode (utf8_decode (0x1f # 0x8b # z)) = 0x1f # 0xEF # 0xBF # 0xBD # utf8_encode (utf8_decode z)"
  by (simp add: utf8_decode_def utf8_encode_def utf8_encode_cp_def)

lemma getFileCreationDate_header:
  assumes "trim first = 91 # mid @ [93]"
  shows "getFileCreationDate e w file (Some st) (Some (first # rest)) = Returns (Date_of_string e mid) w"
  using assms by (simp add: getFileCreationDate_def Let_def)

lemma gzipCompressLog_success:
  assumes "files w file = Some n" and "isFile n"
    and "getFileCreationDate e w file (Some st) (Some (split_on 10 (utf8_decode (content n)))) = Returns d w"
    and "formatDateFileName e d = Inr stamp"
    and "gzip e (utf8_encode (utf8_decode (content n))) = Some z"
  shows "gzipCompressLog e w file st =
     Returns () (w\<lparr>files := ((files w)(file := None))
        (path_join (dir (path_parse file)) (stamp @ ext (path_parse file) @ ''.gz'') \<mapsto>
           n\<lparr>content := utf8_encode (utf8_decode z), ctimeMs := now e\<rparr>)\<rparr>)"
  using assms
  by (simp add: gzipCompressLog_def fs_readFile_def fs_writeFile_def fs_rename_def Let_def join_split)

lemma static_rename_default:
  assumes "initialData options = None" and "mode options = Rename" and "renameFile options = None"
    and "logDateHeader (TimeValue (now e)) = Inr hdr" and "hdr \<noteq> []"
    and "path_resolve e (path options) = file"
    and "files w file = Some n" and "isFile n"
    and "files w (dir (path_parse file)) = Some dn" and "\<not> isFile dn"
    and "gzipCompressLog e w file n = Returns () w1"
    and "files w1 file = None"
  shows "static_createFileWriteStream e w options =
     Some (Returns (next_stream w1)
       (w1\<lparr>streams := (streams w1)(next_stream w1 :=
               \<lparr>ws_path = file, ws_append = False, closed = False, destroyed = False,
                chunks = [ustr hdr @ [10]]\<rparr>),
            next_stream := Suc (next_stream w1),
            files := (files w1)(file \<mapsto>
               \<lparr>isFile = True, content = [], birthtimeMs = now e, ctimeMs = now e\<rparr>)\<rparr>))"
  using assms
  by (simp add: static_createFileWriteStream_def stat_or_null_def fs_stat_def fs_mkdir_def
      prepare_file_def fs_writeFile_def createWriteStream_def fs_readFile_def stream_write_def
      utf8_decode_Nil ustr_def Let_def)


lemma old_text_roundtrip: "utf8_decode (utf8_encode old_text) = old_text"
  by code_simp

lemma old_text_lines:
  "split_on 10 old_text = [ustr ''[2023-01-01T00:00:00.000Z]'', ustr ''hello'', []]"
  by code_simp

lemma old_text_header:
  "trim (ustr ''[2023-01-01T00:00:00.000Z]'') = 91 # ustr ''2023-01-01T00:00:00.000Z'' @ [93]"
  by (simp add: trim_def js_whitespace_def ustr_def)

lemma old_text_date: "parse_iso (ustr ''2023-01-01T00:00:00.000Z'') = Some 1672531200000"
  by code_simp

lemma stamp_est: "formatDateFileName est (TimeValue 1672531200000) = Inr ''2023-01-01-19-0-0-0''"
  by code_simp

lemma stamp_utc: "formatDateFileName utc (TimeValue 1672531200000) = Inr ''2023-01-01-0-0-0-0''"
  by code_simp

lemma header_now: "logDateHeader (TimeValue 1700000000123) = Inr ''[2023-11-14T22:13:20.123Z]''"
  by code_simp

lemma latest_log_path:
  "absolute ''/logs/latest.log'' = ''/logs/latest.log''"
  "path_parse ''/logs/latest.log'' = \<lparr>dir = ''/logs'', base = ''latest.log'', ext = ''.log''\<rparr>"
  "path_join ''/logs'' (''2023-01-01-19-0-0-0'' @ ''.log'' @ ''.gz'') = ''/logs/2023-01-01-19-0-0-0.log.gz''"
  "path_join ''/logs'' (''2023-01-01-0-0-0-0'' @ ''.log'' @ ''.gz'') = ''/logs/2023-01-01-0-0-0-0.log.gz''"
  by code_simp+

lemma rotation_gzip:
  assumes "files w = files rotation_world"
    and "gzip e = toy_gzip" and "formatDateFileName e (TimeValue 1672531200000) = Inr stamp"
  shows "gzipCompressLog e w ''/logs/latest.log'' old_log =
     Returns () (w\<lparr>files := ((files w)(''/logs/latest.log'' := None))
        (path_join ''/logs'' (stamp @ ''.log'' @ ''.gz'') \<mapsto>
           old_log\<lparr>content := utf8_encode (utf8_decode
                       ([0x1f, 0x8b, 0x08, 0, 0, 0, 0, 0, 0, 3] @ utf8_encode old_text)),
                    ctimeMs := now e\<rparr>)\<rparr>)"
proof -
  have fl: "files w ''/logs/latest.log'' = Some old_log"
    by (simp add: assms(1) rotation_world_def)
  have isf: "isFile old_log" by (simp add: old_log_def)
  have c: "content old_log = utf8_encode old_text" by (simp add: old_log_def)
  have d: "getFileCreationDate e w ''/logs/latest.log'' (Some old_log)
             (Some (split_on 10 (utf8_decode (content old_log)))) =
           Returns (TimeValue 1672531200000) w"
    unfolding c old_text_roundtrip old_text_lines
    by (simp add: getFileCreationDate_header [OF old_text_header] Date_of_string_def old_text_date)
  have g: "gzip e (utf8_encode (utf8_decode (content old_log))) =
      Some ([0x1f, 0x8b, 0x08, 0, 0, 0, 0, 0, 0, 3] @ utf8_encode old_text)"
    unfolding c old_text_roundtrip by (simp add: assms(2) toy_gzip_def)
  show ?thesis
    unfolding gzipCompressLog_success [OF fl isf d assms(3) g]
    by (simp add: latest_log_path)
qed

lemma rotation_static:
  assumes "files w = files rotation_world"
    and "gzip e = toy_gzip" and "formatDateFileName e (TimeValue 1672531200000) = Inr stamp"
    and "now e = 1700000000123"
    and "path_join ''/logs'' (stamp @ ''.log'' @ ''.gz'') = newFile"
    and "newFile \<noteq> ''/logs/latest.log''"
  shows "static_createFileWriteStream e w rename_options =
     Some (Returns (next_stream w)
       (w\<lparr>
          streams := (streams w)(next_stream w :=
             \<lparr>ws_path = ''/logs/latest.log'', ws_append = False, closed = False, destroyed = False,
              chunks = [ustr ''[2023-11-14T22:13:20.123Z]'' @ [10]]\<rparr>),
          next_stream := Suc (next_stream w),
          files := (((files rotation_world)(''/logs/latest.log'' := None))
             (newFile \<mapsto> old_log\<lparr>content := utf8_encode (utf8_decode
                       ([0x1f, 0x8b, 0x08, 0, 0, 0, 0, 0, 0, 3] @ utf8_encode old_text)),
                    ctimeMs := 1700000000123\<rparr>))
             (''/logs/latest.log'' \<mapsto>
               \<lparr>isFile = True, content = [], birthtimeMs = 1700000000123, ctimeMs = 1700000000123\<rparr>)\<rparr>))"
proof -
  let ?w1 = "w\<lparr>files := ((files w)(''/logs/latest.log'' := None))
        (newFile \<mapsto>
           old_log\<lparr>content := utf8_encode (utf8_decode
                       ([0x1f, 0x8b, 0x08, 0, 0, 0, 0, 0, 0, 3] @ utf8_encode old_text)),
                    ctimeMs := now e\<rparr>)\<rparr>"
  have gz: "gzipCompressLog e w ''/logs/latest.log'' old_log = Returns () ?w1"
    using rotation_gzip [OF assms(1,2,3)] assms(5) by simp
  have hd: "logDateHeader (TimeValue (now e)) = Inr ''[2023-11-14T22:13:20.123Z]''"
    using header_now assms(4) by simp
  have pr: "path_resolve e (path rename_options) = ''/logs/latest.log''"
    by (simp add: path_resolve_def rename_options_def latest_log_path)
  have fl: "files w ''/logs/latest.log'' = Some old_log"
    by (simp add: assms(1) rotation_world_def)
  have isf: "isFile old_log" by (simp add: old_log_def)
  have dr: "files w (dir (path_parse ''/logs/latest.log'')) =
      Some \<lparr>isFile = False, content = [], birthtimeMs = 1, ctimeMs = 1\<rparr>"
    by (simp add: latest_log_path assms(1) rotation_world_def)
  have free: "files ?w1 ''/logs/latest.log'' = None" using assms(6) by simp
  have "static_createFileWriteStream e w rename_options =
     Some (Returns (next_stream ?w1)
       (?w1\<lparr>streams := (streams ?w1)(next_stream ?w1 :=
               \<lparr>ws_path = ''/logs/latest.log'', ws_append = False, closed = False, destroyed = False,
                chunks = [ustr ''[2023-11-14T22:13:20.123Z]'' @ [10]]\<rparr>),
            next_stream := Suc (next_stream ?w1),
            files := (files ?w1)(''/logs/latest.log'' \<mapsto>
               \<lparr>isFile = True, content = [], birthtimeMs = now e, ctimeMs = now e\<rparr>)\<rparr>))"
    by (rule static_rename_default [OF _ _ _ hd _ pr fl isf dr _ gz free])
       (simp_all add: rename_options_def)
  then show ?thesis by (simp add: assms(1,4))
qed

text \<open>
  C3 (the code departs from it). The scenario of the claim: \<open>/logs/latest.log\<close> holds the
  header \<open>[2023-01-01T00:00:00.000Z]\<close> and one line, and the static factory is called with
  mode \<open>Rename\<close> and the default rename routine. In a process five hours west of UTC the
  rotated file is \<open>2023-01-01-19-0-0-0.log.gz\<close> and no file of the claimed name
  \<open>2023-01-01-0-0-0-0.log.gz\<close> exists: the name joins the UTC date with the hours and
  minutes of local time. Only in a process whose local time is UTC is the name the claimed
  one. In both, \<open>latest.log\<close> is empty when the stream opens and the new header line is
  the one chunk written to the stream.
\<close>

theorem rotated_name_mixes_utc_date_and_local_time:
  "(\<exists>w'. static_createFileWriteStream est rotation_world rename_options = Some (Returns 0 w')
      \<and> files w' ''/logs/2023-01-01-0-0-0-0.log.gz'' = None
      \<and> map_option isFile (files w' ''/logs/2023-01-01-19-0-0-0.log.gz'') = Some True
      \<and> map_option content (files w' ''/logs/latest.log'') = Some []
      \<and> chunks (streams w' 0) = [ustr ''[2023-11-14T22:13:20.123Z]'' @ [10]])
   \<and> (\<exists>w'. static_createFileWriteStream utc rotation_world rename_options = Some (Returns 0 w')
      \<and> map_option isFile (files w' ''/logs/2023-01-01-0-0-0-0.log.gz'') = Some True
      \<and> map_option content (files w' ''/logs/latest.log'') = Some []
      \<and> chunks (streams w' 0) = [ustr ''[2023-11-14T22:13:20.123Z]'' @ [10]])"
proof -
  have e: "gzip est = toy_gzip" "now est = 1700000000123" by (simp_all add: est_def)
  have u: "gzip utc = toy_gzip" "now utc = 1700000000123" by (simp_all add: utc_def)
  let ?W = "\<lambda>newFile. rotation_world\<lparr>
          streams := (streams rotation_world)(next_stream rotation_world :=
             \<lparr>ws_path = ''/logs/latest.log'', ws_append = False, closed = False, destroyed = False,
              chunks = [ustr ''[2023-11-14T22:13:20.123Z]'' @ [10]]\<rparr>),
          next_stream := Suc (next_stream rotation_world),
          files := (((files rotation_world)(''/logs/latest.log'' := None))
             (newFile \<mapsto> old_log\<lparr>content := utf8_encode (utf8_decode
                       ([0x1f, 0x8b, 0x08, 0, 0, 0, 0, 0, 0, 3] @ utf8_encode old_text)),
                    ctimeMs := 1700000000123\<rparr>))
             (''/logs/latest.log'' \<mapsto>
               \<lparr>isFile = True, content = [], birthtimeMs = 1700000000123, ctimeMs = 1700000000123\<rparr>)\<rparr>"
  have a: "static_createFileWriteStream est rotation_world rename_options =
      Some (Returns (next_stream rotation_world) (?W ''/logs/2023-01-01-19-0-0-0.log.gz''))"
    by (rule rotation_static [OF refl e(1) stamp_est e(2) latest_log_path(3)]) simp
  have b: "static_createFileWriteStream utc rotation_world rename_options =
      Some (Returns (next_stream rotation_world) (?W ''/logs/2023-01-01-0-0-0-0.log.gz''))"
    by (rule rotation_static [OF refl u(1) stamp_utc u(2) latest_log_path(4)]) simp
  show ?thesis
    unfolding a b by (simp add: old_log_def rotation_world_def)
qed

text \<open>
  C4 (the code departs from it). Whenever the default rename routine succeeds on a regular
  file and the codec's output starts with the magic bytes \<open>1f 8b\<close> of gzip, the bytes of
  the rotated file are not the codec's output: the routine writes
  \<open>data.toString('utf-8')\<close>, the output decoded as UTF-8 and encoded again, and the byte
  \<open>8b\<close>, which is not valid UTF-8, comes back as the three bytes \<open>ef bf bd\<close> of U+FFFD.
\<close>

theorem gzipCompressLog_writes_decoded_text:
  assumes "files w file = Some n" and "isFile n"
    and "gzip e (utf8_encode (utf8_decode (content n))) = Some (0x1f # 0x8b # z)"
    and "gzipCompressLog e w file st = Returns () w'"
  shows "\<exists>newFile m. files w' newFile = Some m
     \<and> content m = utf8_encode (utf8_decode (0x1f # 0x8b # z))
     \<and> take 4 (content m) = [0x1f, 0xEF, 0xBF, 0xBD]
     \<and> content m \<noteq> 0x1f # 0x8b # z"
proof -
  from assms(4) obtain d stamp where
    w': "w' = w\<lparr>files := ((files w)(file := None))
        (path_join (dir (path_parse file)) (stamp @ ext (path_parse file) @ ''.gz'') \<mapsto>
           n\<lparr>content := utf8_encode (utf8_decode (0x1f # 0x8b # z)), ctimeMs := now e\<rparr>)\<rparr>"
    using assms(1-3)
    by (auto simp: gzipCompressLog_def fs_readFile_def fs_writeFile_def fs_rename_def Let_def
        join_split split: result.splits sum.splits option.splits if_splits)
  let ?new = "path_join (dir (path_parse file)) (stamp @ ext (path_parse file) @ ''.gz'')"
  let ?m = "n\<lparr>content := utf8_encode (utf8_decode (0x1f # 0x8b # z)), ctimeMs := now e\<rparr>"
  have "files w' ?new = Some ?m" unfolding w' by simp
  moreover have "content ?m = utf8_encode (utf8_decode (0x1f # 0x8b # z))" by simp
  moreover have "take 4 (content ?m) = [0x1f, 0xEF, 0xBF, 0xBD]"
    by (simp add: utf8_gzip_magic)
  moreover have "content ?m \<noteq> 0x1f # 0x8b # z"
    by (simp add: utf8_gzip_magic)
  ultimately show ?thesis by blast
qed

theorem gzipCompressLog_writes_decoded_text_witness:
  "files rotation_world ''/logs/latest.log'' = Some old_log \<and> isFile old_log
   \<and> gzip est (utf8_encode (utf8_decode (content old_log))) =
         Some (0x1f # 0x8b # [0x08, 0, 0, 0, 0, 0, 0, 3] @ utf8_encode old_text)
   \<and> (\<exists>w'. gzipCompressLog est rotation_world ''/logs/latest.log'' old_log = Returns () w'
        \<and> (\<exists>newFile m. files w' newFile = Some m
              \<and> take 4 (content m) = [0x1f, 0xEF, 0xBF, 0xBD]
              \<and> content m \<noteq> 0x1f # 0x8b # [0x08, 0, 0, 0, 0, 0, 0, 3] @ utf8_encode old_text))"
proof -
  have fl: "files rotation_world ''/logs/latest.log'' = Some old_log"
    by (simp add: rotation_world_def)
  have isf: "isFile old_log" by (simp add: old_log_def)
  have g: "gzip est (utf8_encode (utf8_decode (content old_log))) =
         Some (0x1f # 0x8b # [0x08, 0, 0, 0, 0, 0, 0, 3] @ utf8_encode old_text)"
    by (simp add: old_log_def old_text_roundtrip est_def toy_gzip_def)
  have "gzip est = toy_gzip" by (simp add: est_def)
  from rotation_gzip [OF refl this stamp_est] obtain w' where
    r: "gzipCompressLog est rotation_world ''/logs/latest.log'' old_log = Returns () w'"
    by blast
  from gzipCompressLog_writes_decoded_text [OF fl isf g r] fl isf g r
  show ?thesis by blast
qed

lemma set_writeStream_frame:
  assumes "set_writeStream h r v = Some h'"
  shows "\<forall>q l. q \<noteq> r \<and> h q = Some l \<and> own_writeStream l \<noteq> None \<longrightarrow> h' q = Some l"
  using assms
proof (rule set_writeStream.raw_induct [rotated 1,
      where P = "\<lambda>h r v h'. \<forall>q l. q \<noteq> r \<and> h q = Some l \<and> own_writeStream l \<noteq> None \<longrightarrow> h' q = Some l"],
    goal_cases)
  case (1 rec h r v h')
  from 1(2) obtain l where l: "h r = Some l" by (auto split: option.splits)
  let ?h1 = "h(r \<mapsto> l\<lparr>own_writeStream := v\<rparr>)"
  show ?case
  proof (intro allI impI)
    fix q lq
    assume q: "q \<noteq> r \<and> h q = Some lq \<and> own_writeStream lq \<noteq> None"
    then have q1: "?h1 q = Some lq" by simp
    show "h' q = Some lq"
    proof (cases "parent l")
      case None
      with 1(2) l have "h' = ?h1" by simp
      with q1 show ?thesis by simp
    next
      case (Some p)
      with 1(2) l obtain ps where ps: "get_writeStream ?h1 p = Some ps"
        by (auto simp: Let_def split: Option.bind_splits)
      show ?thesis
      proof (cases ps)
        case (Some s)
        with 1(2) l \<open>parent l = Some p\<close> ps have "h' = ?h1" by (simp add: Let_def)
        with q1 show ?thesis by simp
      next
        case None
        with 1(2) l \<open>parent l = Some p\<close> ps have rec: "rec ?h1 p v = Some h'"
          by (simp add: Let_def)
        have "q \<noteq> p"
        proof
          assume "q = p"
          with q1 q have "get_writeStream ?h1 p \<noteq> Some None"
            by (subst get_writeStream.simps) (auto split: option.splits)
          with ps None show False by simp
        qed
        with 1(1) [OF rec] q1 q show ?thesis by blast
      qed
    qed
  qed
qed

lemma set_writeStream_own:
  assumes "set_writeStream h r (Some s) = Some h'"
  shows "\<exists>l. h' r = Some l \<and> own_writeStream l = Some s"
proof -
  from assms obtain l where l: "h r = Some l"
    by (subst (asm) set_writeStream.simps) (auto split: option.splits)
  let ?h1 = "h(r \<mapsto> l\<lparr>own_writeStream := Some s\<rparr>)"
  show ?thesis
  proof (cases "parent l")
    case None
    with assms l have "h' = ?h1" by (subst (asm) set_writeStream.simps) simp
    then show ?thesis by simp
  next
    case (Some p)
    with assms l obtain ps where ps: "get_writeStream ?h1 p = Some ps"
      by (subst (asm) set_writeStream.simps) (auto simp: Let_def split: Option.bind_splits)
    show ?thesis
    proof (cases ps)
      case (Some s')
      with assms l \<open>parent l = Some p\<close> ps have "h' = ?h1"
        by (subst (asm) set_writeStream.simps) (simp add: Let_def)
      then show ?thesis by simp
    next
      case None
      with assms l \<open>parent l = Some p\<close> ps have rec: "set_writeStream ?h1 p (Some s) = Some h'"
        by (subst (asm) set_writeStream.simps) (simp add: Let_def)
      have "r \<noteq> p"
      proof
        assume "r = p"
        then have "get_writeStream ?h1 p = Some (Some s)"
          by (subst get_writeStream.simps) simp
        with ps None show False by simp
      qed
      with set_writeStream_frame [OF rec, rule_format, of r "l\<lparr>own_writeStream := Some s\<rparr>"]
      show ?thesis by simp
    qed
  qed
qed

lemma static_stream_open:
  assumes "static_createFileWriteStream e w options = Some (Returns s w1)"
  shows "\<not> closed (streams w1 s) \<and> \<not> destroyed (streams w1 s)"
  using assms
  by (auto simp: static_createFileWriteStream_def createWriteStream_def stream_write_def Let_def
      split: sum.splits result.splits option.splits if_splits prod.splits)

text \<open>
  C9. When the stream a logger resolves is open (neither closed nor destroyed), the
  instance method \<open>createFileWriteStream\<close> throws "Write stream already created" and leaves
  the world as it was, the handle included; and after a call that returned, a second call
  on the same logger, with any options, throws that error and changes nothing.
\<close>

theorem createFileWriteStream_while_open:
  "(get_writeStream (loggers w) r = Some (Some s) \<and> \<not> closed (streams w s) \<and> \<not> destroyed (streams w s)
      \<longrightarrow> createFileWriteStream e w r options = Some (Throws WriteStreamAlreadyCreated w))
   \<and> (createFileWriteStream e w r options = Some (Returns x w1)
      \<longrightarrow> createFileWriteStream e' w1 r options' = Some (Throws WriteStreamAlreadyCreated w1))"
proof (intro conjI impI)
  assume "get_writeStream (loggers w) r = Some (Some s) \<and> \<not> closed (streams w s) \<and> \<not> destroyed (streams w s)"
  then show "createFileWriteStream e w r options = Some (Throws WriteStreamAlreadyCreated w)"
    by (simp add: createFileWriteStream_def isWriteStreamClosed_def)
next
  assume a: "createFileWriteStream e w r options = Some (Returns x w1)"
  then obtain s w0 h where
    st: "static_createFileWriteStream e w options = Some (Returns s w0)"
    and set: "set_writeStream (loggers w0) r (Some s) = Some h"
    and w1: "w1 = w0\<lparr>loggers := h\<rparr>"
    by (auto simp: createFileWriteStream_def split: Option.bind_splits if_splits option.splits result.splits)
  from set_writeStream_own [OF set] obtain l where l: "h r = Some l" "own_writeStream l = Some s"
    by blast
  have g: "get_writeStream (loggers w1) r = Some (Some s)"
    unfolding w1 using l by (subst get_writeStream.simps) simp
  from static_stream_open [OF st] have "\<not> closed (streams w1 s) \<and> \<not> destroyed (streams w1 s)"
    by (simp add: w1)
  with g show "createFileWriteStream e' w1 r options' = Some (Throws WriteStreamAlreadyCreated w1)"
    by (simp add: createFileWriteStream_def isWriteStreamClosed_def)
qed


lemma createFileWriteStream_success:
  assumes "chain (loggers w) r as" and "isWriteStreamClosed w r = Some True"
    and "static_createFileWriteStream e w options = Some (Returns s w0)"
    and "loggers w0 = loggers w"
  shows "\<exists>w1. createFileWriteStream e w r options = Some (Returns r w1)"
proof -
  from assms(1,4) have "chain (loggers w0) r as" by simp
  from set_writeStream_chain [OF this, of "Some s"]
  obtain h where "set_writeStream (loggers w0) r (Some s) = Some h" by blast
  with assms(2,3) show ?thesis by (simp add: createFileWriteStream_def)
qed

lemma rotation_static_loggers:
  assumes "files w = files rotation_world"
  shows "\<exists>w0. static_createFileWriteStream utc w rename_options = Some (Returns (next_stream w) w0)
     \<and> loggers w0 = loggers w"
proof -
  have u: "gzip utc = toy_gzip" "now utc = 1700000000123" by (simp_all add: utc_def)
  have "''/logs/2023-01-01-0-0-0-0.log.gz'' \<noteq> ''/logs/latest.log''" by simp
  from rotation_static [OF assms u(1) stamp_utc u(2) latest_log_path(4) this]
  show ?thesis by simp
qed

theorem createFileWriteStream_while_open_witness:
  "get_writeStream (loggers listening_world) 2 = Some (Some 5)
   \<and> \<not> closed (streams listening_world 5) \<and> \<not> destroyed (streams listening_world 5)
   \<and> createFileWriteStream utc listening_world 2 rename_options
        = Some (Throws WriteStreamAlreadyCreated listening_world)
   \<and> (\<exists>w1. createFileWriteStream utc rotation_world 0 rename_options = Some (Returns 0 w1)
        \<and> createFileWriteStream utc w1 0 rename_options = Some (Throws WriteStreamAlreadyCreated w1))"
proof -
  have c: "chain (loggers listening_world) 2 [1, 0]"
    by (simp add: listening_world_def plain_logger_def)
  have g: "get_writeStream (loggers listening_world) 2 = Some (Some 5)"
    unfolding get_writeStream_chain [OF c] by (simp add: listening_world_def plain_logger_def)
  have o: "\<not> closed (streams listening_world 5) \<and> \<not> destroyed (streams listening_world 5)"
    by (simp add: listening_world_def open_stream_def)
  have c0: "chain (loggers rotation_world) 0 []"
    by (simp add: rotation_world_def plain_logger_def)
  have cl: "isWriteStreamClosed rotation_world 0 = Some True"
    unfolding isWriteStreamClosed_def get_writeStream_chain [OF c0]
    by (simp add: rotation_world_def plain_logger_def)
  from rotation_static_loggers [OF refl] obtain w0 where
    "static_createFileWriteStream utc rotation_world rename_options = Some (Returns (next_stream rotation_world) w0)"
    "loggers w0 = loggers rotation_world" by blast
  from createFileWriteStream_success [OF c0 cl this] obtain w1 where
    w1: "createFileWriteStream utc rotation_world 0 rename_options = Some (Returns 0 w1)" by blast
  note t1 = createFileWriteStream_while_open [of listening_world 2 5 utc rename_options]
  note t2 = createFileWriteStream_while_open [of rotation_world 0 _ utc rename_options 0 w1 utc rename_options]
  from t1 g o have a: "createFileWriteStream utc listening_world 2 rename_options
        = Some (Throws WriteStreamAlreadyCreated listening_world)" by blast
  from t2 w1 have "createFileWriteStream utc w1 0 rename_options = Some (Throws WriteStreamAlreadyCreated w1)"
    by blast
  with w1 a g o show ?thesis by blast
qed

text \<open>
  C10 (amended). For a logger on a finite parent chain that has no stream of its own: when
  the stream it resolves, the one held by the nearest ancestor that holds a stream, is
  open, \<open>createFileWriteStream\<close> throws "Write stream already created".
\<close>

theorem createFileWriteStream_inherited_open:
  assumes "chain (loggers w) r as" and "loggers w r = Some l" and "own_writeStream l = None"
    and "resolve (loggers w) as = Some s"
    and "\<not> closed (streams w s)" and "\<not> destroyed (streams w s)"
  shows "createFileWriteStream e w r options = Some (Throws WriteStreamAlreadyCreated w)"
proof -
  have "get_writeStream (loggers w) r = Some (Some s)"
    unfolding get_writeStream_chain [OF assms(1)] using assms(2,3,4) by simp
  with assms(5,6) show ?thesis
    by (simp add: createFileWriteStream_def isWriteStreamClosed_def)
qed

theorem createFileWriteStream_inherited_open_witness:
  "chain (loggers listening_world) 2 [1, 0]
   \<and> map_option own_writeStream (loggers listening_world 2) = Some None
   \<and> resolve (loggers listening_world) [1, 0] = Some 5
   \<and> \<not> closed (streams listening_world 5) \<and> \<not> destroyed (streams listening_world 5)
   \<and> createFileWriteStream est listening_world 2 rename_options
        = Some (Throws WriteStreamAlreadyCreated listening_world)"
proof -
  let ?l = "(plain_logger (Some 1) None)\<lparr>listeners := (\<lambda>_. [12, 13])\<rparr>"
  have c: "chain (loggers listening_world) 2 [1, 0]"
    by (simp add: listening_world_def plain_logger_def)
  have l: "loggers listening_world 2 = Some ?l" by (simp add: listening_world_def)
  have n: "own_writeStream ?l = None" by (simp add: plain_logger_def)
  have r: "resolve (loggers listening_world) [1, 0] = Some 5"
    by (simp add: listening_world_def plain_logger_def)
  have o1: "\<not> closed (streams listening_world 5)" by (simp add: listening_world_def open_stream_def)
  have o2: "\<not> destroyed (streams listening_world 5)" by (simp add: listening_world_def open_stream_def)
  from createFileWriteStream_inherited_open [OF c l n r o1 o2, of est rename_options] c l n r o1 o2
  show ?thesis by simp
qed

text \<open>
  C10 as stated fails: the root 0 holds an open stream, but the grandchild 2 resolves the
  closed stream of its parent 1, so \<open>createFileWriteStream\<close> on 2 does not throw; it creates
  a stream and returns the logger.
\<close>

theorem nearer_closed_stream_hides_open_ancestor:
  "chain (loggers shadowed_world) 2 [1, 0]
   \<and> map_option own_writeStream (loggers shadowed_world 2) = Some None
   \<and> map_option own_writeStream (loggers shadowed_world 0) = Some (Some 5)
   \<and> \<not> closed (streams shadowed_world 5) \<and> \<not> destroyed (streams shadowed_world 5)
   \<and> createFileWriteStream utc shadowed_world 2 rename_options
        \<noteq> Some (Throws WriteStreamAlreadyCreated shadowed_world)
   \<and> (case createFileWriteStream utc shadowed_world 2 rename_options of
         Some (Returns x w1) \<Rightarrow> x = 2
       | _ \<Rightarrow> False)"
proof -
  have c: "chain (loggers shadowed_world) 2 [1, 0]"
    by (simp add: shadowed_world_def plain_logger_def)
  have cl: "isWriteStreamClosed shadowed_world 2 = Some True"
    unfolding isWriteStreamClosed_def get_writeStream_chain [OF c]
    by (simp add: shadowed_world_def plain_logger_def open_stream_def)
  have f: "files shadowed_world = files rotation_world" by (simp add: shadowed_world_def)
  from rotation_static_loggers [OF f] obtain w0 where
    "static_createFileWriteStream utc shadowed_world rename_options = Some (Returns (next_stream shadowed_world) w0)"
    "loggers w0 = loggers shadowed_world" by blast
  from createFileWriteStream_success [OF c cl this] obtain w1 where
    w1: "createFileWriteStream utc shadowed_world 2 rename_options = Some (Returns 2 w1)" by blast
  have "map_option own_writeStream (loggers shadowed_world 2) = Some None"
    "map_option own_writeStream (loggers shadowed_world 0) = Some (Some 5)"
    "\<not> closed (streams shadowed_world 5)" "\<not> destroyed (streams shadowed_world 5)"
    by (simp_all add: shadowed_world_def plain_logger_def open_stream_def)
  with c w1 show ?thesis by simp
qed

end
